theory Spec2Isabelle
  imports Main "HOL-Library.Word" "HOL-Library.Sublist"
begin

unbundle bit_operations_syntax

section \<open>Errors\<close>

text \<open>
  \<^verbatim>\<open>errors.Errorf\<close> / \<^verbatim>\<open>errors.New\<close> values carry their message; a
  \<^verbatim>\<open>scriptError(code, description)\<close> is kept by its code.
\<close>

datatype ErrorCode = ErrMalformedPush | ErrInvalidSigHashSingleIndex | ErrPubKeyFormat

datatype error = Errorf string | ScriptError ErrorCode

section \<open>Block locator (consensus/blocklocator/blocklocator.go)\<close>

text \<open>
  A hash is an opaque 32-byte identifier; it is read here as the number it encodes.
\<close>

type_synonym hash = nat

text \<open>
  Modelled from the spec: \<^verbatim>\<open>blocknode.BlockNode\<close> (package blocknode is not among the
  sources). A node carries its hash, its blue score (a \<^verbatim>\<open>uint64\<close>, as the arithmetic of
  \<^verbatim>\<open>blockLocator\<close> shows) and a pointer to its selected parent, \<^verbatim>\<open>nil\<close> for genesis.
  Nodes are immutable and a parent exists before its child, so the pointer chain is a
  finite nested value; two pointers are equal when the nodes are.
\<close>

datatype blocknode =
  BlockNode (Hash: hash) (BlueScore: "64 word") (SelectedParent: "blocknode option")

text \<open>
  Modelled from the spec: \<^verbatim>\<open>SelectedAncestor\<close> of package blocknode, section 4.3:
  "walk the selected-parent chain from b until a node with blueScore \<le> target is reached;
  returns that node". When the chain ends before such a node is met there is no node to
  return (\<^verbatim>\<open>nil\<close>).
\<close>

fun SelectedAncestor :: "blocknode \<Rightarrow> 64 word \<Rightarrow> blocknode option" where
  "SelectedAncestor (BlockNode h bs sp) blueScore =
     (if bs \<le> blueScore then Some (BlockNode h bs sp)
      else (case sp of None \<Rightarrow> None | Some p \<Rightarrow> SelectedAncestor p blueScore))"

text \<open>\<^verbatim>\<open>BlockNodeStore.LookupNode\<close>: the index from hash to node; \<open>None\<close> is \<^verbatim>\<open>ok = false\<close>.\<close>

type_synonym BlockNodeStore = "hash \<rightharpoonup> blocknode"

definition LookupNode :: "BlockNodeStore \<Rightarrow> hash \<Rightarrow> blocknode option" where
  "LookupNode store h = store h"

text \<open>
  The loop of \<^verbatim>\<open>blockLocator\<close>, with its three variables \<^verbatim>\<open>node\<close>, \<^verbatim>\<open>step\<close> and
  \<^verbatim>\<open>locator\<close>. \<^verbatim>\<open>step\<close> and the blue scores are \<^verbatim>\<open>uint64\<close>: the subtraction and the
  doubling wrap. Nothing bounds the number of iterations, so the loop is a partial function
  and \<open>None\<close> stands for a run that never returns.
\<close>

partial_function (option) blockLocatorLoop ::
  "blocknode \<Rightarrow> blocknode option \<Rightarrow> 64 word \<Rightarrow> hash list \<Rightarrow> (error + hash list) option"
where
  "blockLocatorLoop lowNode node step locator =
     (case node of
        None \<Rightarrow> Some (Inr locator)
      | Some n \<Rightarrow>
          if BlueScore n \<le> BlueScore lowNode then
            (if n \<noteq> lowNode
             then Some (Inl (Errorf ''highNode and lowNode are not in the same selected parent chain.''))
             else Some (Inr (locator @ [Hash n])))
          else
            blockLocatorLoop lowNode
              (SelectedAncestor n
                 (if BlueScore n - step < BlueScore lowNode then BlueScore lowNode
                  else BlueScore n - step))
              (step * 2)
              (locator @ [Hash n]))"

definition blockLocator :: "blocknode \<Rightarrow> blocknode \<Rightarrow> (error + hash list) option" where
  "blockLocator highNode lowNode = blockLocatorLoop lowNode (SelectedParent highNode) 1 []"

text \<open>
  The same loop cut after \<open>k\<close> iterations, to observe its variables: \<open>Inl r\<close> when
  \<^verbatim>\<open>blockLocator\<close> has returned \<open>r\<close> within \<open>k\<close> iterations, \<open>Inr (node, step, locator)\<close> with
  the values of the three variables after the \<open>k\<close>-th iteration otherwise.
\<close>

fun blockLocatorSteps ::
  "nat \<Rightarrow> blocknode \<Rightarrow> blocknode option \<Rightarrow> 64 word \<Rightarrow> hash list \<Rightarrow>
   (error + hash list) + (blocknode option \<times> 64 word \<times> hash list)"
where
  "blockLocatorSteps 0 lowNode node step locator = Inr (node, step, locator)"
| "blockLocatorSteps (Suc k) lowNode node step locator =
     (case node of
        None \<Rightarrow> Inl (Inr locator)
      | Some n \<Rightarrow>
          if BlueScore n \<le> BlueScore lowNode then
            (if n \<noteq> lowNode
             then Inl (Inl (Errorf ''highNode and lowNode are not in the same selected parent chain.''))
             else Inl (Inr (locator @ [Hash n])))
          else
            blockLocatorSteps k lowNode
              (SelectedAncestor n
                 (if BlueScore n - step < BlueScore lowNode then BlueScore lowNode
                  else BlueScore n - step))
              (step * 2)
              (locator @ [Hash n]))"

definition BlockLocatorFromHashes ::
  "BlockNodeStore \<Rightarrow> hash \<Rightarrow> hash \<Rightarrow> (error + hash list) option"
where
  "BlockLocatorFromHashes store highHash lowHash =
     (case LookupNode store highHash of
        None \<Rightarrow> Some (Inl (Errorf ''block is unknown''))
      | Some highNode \<Rightarrow>
          (case LookupNode store lowHash of
             None \<Rightarrow> Some (Inl (Errorf ''block is unknown''))
           | Some lowNode \<Rightarrow> blockLocator highNode lowNode))"

text \<open>
  The \<^verbatim>\<open>range\<close> loop of \<^verbatim>\<open>FindNextLocatorBoundaries\<close>: the first locator entry that
  \<^verbatim>\<open>LookupNode\<close> knows, at index \<open>i\<close>, ends the loop with \<^verbatim>\<open>lowNode = node\<close> and
  \<^verbatim>\<open>nextBlockLocatorIndex = i - 1\<close>; \<open>None\<close> when the loop runs to the end.
\<close>

fun findFirstKnown :: "BlockNodeStore \<Rightarrow> hash list \<Rightarrow> int \<Rightarrow> (blocknode \<times> int) option" where
  "findFirstKnown store [] i = None"
| "findFirstKnown store (h # hs) i =
     (case LookupNode store h of
        Some node \<Rightarrow> Some (node, i - 1)
      | None \<Rightarrow> findFirstKnown store hs (i + 1))"

text \<open>
  \<^verbatim>\<open>FindNextLocatorBoundaries\<close> returns \<^verbatim>\<open>(highHash, lowHash)\<close>, with \<open>None\<close> for a
  \<^verbatim>\<open>nil\<close> high hash. \<^verbatim>\<open>lowNode.Hash()\<close> on a \<^verbatim>\<open>nil\<close> node (genesis not in the store and
  no locator entry known) is a panic: the outer \<open>None\<close>.
\<close>

definition FindNextLocatorBoundaries ::
  "BlockNodeStore \<Rightarrow> hash \<Rightarrow> hash list \<Rightarrow> (hash option \<times> hash) option"
where
  "FindNextLocatorBoundaries store genesisHash locator =
     (let (lowNode, nextBlockLocatorIndex) =
            (case findFirstKnown store locator 0 of
               Some (node, j) \<Rightarrow> (Some node, j)
             | None \<Rightarrow> (LookupNode store genesisHash, int (length locator) - 1))
      in case lowNode of
           None \<Rightarrow> None
         | Some low \<Rightarrow>
             if nextBlockLocatorIndex < 0 then Some (None, Hash low)
             else Some (Some (locator ! nat nextBlockLocatorIndex), Hash low))"

text \<open>
  A selected-parent chain \<open>0, 1, 2, \<dots>\<close> with genesis at 0: block \<open>i\<close> has hash \<open>i\<close>, blue
  score \<open>c + i\<close> and selected parent \<open>i - 1\<close>.
\<close>

fun chainNode :: "64 word \<Rightarrow> nat \<Rightarrow> blocknode" where
  "chainNode c 0 = BlockNode 0 c None"
| "chainNode c (Suc i) = BlockNode (Suc i) (c + of_nat (Suc i)) (Some (chainNode c i))"

text \<open>The store that knows exactly the blocks \<open>0..k\<close> of that chain.\<close>

definition chainStore :: "64 word \<Rightarrow> nat \<Rightarrow> BlockNodeStore" where
  "chainStore c k = (\<lambda>h. if h \<le> k then Some (chainNode c h) else None)"

text \<open>A locator entry is unknown locally when \<^verbatim>\<open>LookupNode\<close> does not find it.\<close>

definition unknownLocally :: "BlockNodeStore \<Rightarrow> hash \<Rightarrow> bool" where
  "unknownLocally store h = (LookupNode store h = None)"

section \<open>Transaction scripts (domain/consensus/utils/txscript/script.go)\<close>

type_synonym byte = "8 word"

text \<open>\<^verbatim>\<open>SigHashType\<close> is a \<^verbatim>\<open>uint32\<close>; the hash type bits from the end of a signature.\<close>

type_synonym SigHashType = "32 word"

definition SigHashOld :: SigHashType where "SigHashOld = 0x0"
definition SigHashAll :: SigHashType where "SigHashAll = 0x1"
definition SigHashNone :: SigHashType where "SigHashNone = 0x2"
definition SigHashSingle :: SigHashType where "SigHashSingle = 0x3"
definition SigHashAnyOneCanPay :: SigHashType where "SigHashAnyOneCanPay = 0x80"
definition sigHashMask :: SigHashType where "sigHashMask = 0x1f"

definition MaxPubKeysPerMultiSig :: int where "MaxPubKeysPerMultiSig = 20"

text \<open>
  An \<^verbatim>\<open>opcode\<close> of the opcode table, by the two fields script.go reads: its byte value and
  its length (1: no data; more than 1: the opcode and that many bytes less one of data;
  negative: a length prefix of that many bytes). A \<^verbatim>\<open>parsedOpcode\<close> is an opcode with the
  data it pushes.
\<close>

datatype opcode = Opcode (opcode_value: byte) (opcode_length: int)

datatype parsedOpcode = ParsedOpcode (opcode: opcode) (data: "byte list")

text \<open>
  The opcode table and the opcode constants live in opcode.go, which is not among the
  sources, as does \<^verbatim>\<open>parsedOpcode.bytes\<close>. They are parameters of the model: \<open>opcodeArray\<close>
  is the table \<^verbatim>\<open>[256]opcode\<close>, \<open>bytes\<close> the serialisation of one parsed opcode.
\<close>

record optable =
  opcodeArray :: "byte \<Rightarrow> opcode"
  bytes :: "parsedOpcode \<Rightarrow> error + byte list"
  Op0 :: byte
  Op1 :: byte
  Op16 :: byte
  OpData20 :: byte
  OpHash160 :: byte
  OpEqual :: byte
  OpCheckSig :: byte
  OpCheckSigVerify :: byte
  OpCheckMultiSig :: byte
  OpCheckMultiSigVerify :: byte

definition isSmallInt :: "optable \<Rightarrow> opcode \<Rightarrow> bool" where
  "isSmallInt ops op =
     (if opcode_value op = Op0 ops \<or> (opcode_value op \<ge> Op1 ops \<and> opcode_value op \<le> Op16 ops)
      then True else False)"

definition isScriptHash :: "optable \<Rightarrow> parsedOpcode list \<Rightarrow> bool" where
  "isScriptHash ops pops =
     (length pops = 3 \<and>
      opcode_value (opcode (pops ! 0)) = OpHash160 ops \<and>
      opcode_value (opcode (pops ! 1)) = OpData20 ops \<and>
      opcode_value (opcode (pops ! 2)) = OpEqual ops)"

fun isPushOnly :: "optable \<Rightarrow> parsedOpcode list \<Rightarrow> bool" where
  "isPushOnly ops [] = True"
| "isPushOnly ops (pop # pops) =
     (if opcode_value (opcode pop) > Op16 ops then False else isPushOnly ops pops)"

text \<open>The little-endian length that follows an \<^verbatim>\<open>OP_PUSHDATA\<close> opcode.\<close>

fun littleEndian :: "byte list \<Rightarrow> nat" where
  "littleEndian [] = 0"
| "littleEndian (b # bs) = unat b + 256 * littleEndian bs"

definition withPop ::
  "parsedOpcode \<Rightarrow> (parsedOpcode list \<times> error option) option \<Rightarrow>
   (parsedOpcode list \<times> error option) option"
where
  "withPop pop r = map_option (\<lambda>(pops, err). (pop # pops, err)) r"

text \<open>
  \<^verbatim>\<open>parseScriptTemplate\<close>, on the part \<^verbatim>\<open>script[i:]\<close> that is still to parse. It returns the
  opcodes parsed so far together with the error, if any. An opcode whose table length is 0
  matches no case of the \<^verbatim>\<open>switch\<close>, so \<^verbatim>\<open>i\<close> never advances and the loop does not return:
  the result \<open>None\<close>. (\<^verbatim>\<open>uint\<close> and \<^verbatim>\<open>int\<close> are 64 bits wide: a 4-byte length never reads as
  negative.)
\<close>

function parseScriptTemplate ::
  "byte list \<Rightarrow> (byte \<Rightarrow> opcode) \<Rightarrow> (parsedOpcode list \<times> error option) option"
where
  "parseScriptTemplate [] opcodes = Some ([], None)"
| "parseScriptTemplate (instr # rest) opcodes =
     (let op = opcodes instr in
      if opcode_length op = 1 then
        withPop (ParsedOpcode op []) (parseScriptTemplate rest opcodes)
      else if opcode_length op > 1 then
        (if int (length (instr # rest)) < opcode_length op
         then Some ([], Some (ScriptError ErrMalformedPush))
         else withPop (ParsedOpcode op (take (nat (opcode_length op) - 1) rest))
                (parseScriptTemplate (drop (nat (opcode_length op) - 1) rest) opcodes))
      else if opcode_length op < 0 then
        (if int (length rest) < - opcode_length op
         then Some ([], Some (ScriptError ErrMalformedPush))
         else if opcode_length op \<noteq> -1 \<and> opcode_length op \<noteq> -2 \<and> opcode_length op \<noteq> -4
         then Some ([], Some (ScriptError ErrMalformedPush))
         else
           (let l = littleEndian (take (nat (- opcode_length op)) rest);
                off = drop (nat (- opcode_length op)) rest
            in if l > length off
               then Some ([], Some (ScriptError ErrMalformedPush))
               else withPop (ParsedOpcode op (take l off))
                      (parseScriptTemplate (drop l off) opcodes)))
      else None)"
  by pat_completeness auto
termination
  by (relation "measure (\<lambda>(script, opcodes). length script)") auto

definition parseScript :: "optable \<Rightarrow> byte list \<Rightarrow> (parsedOpcode list \<times> error option) option" where
  "parseScript ops script = parseScriptTemplate script (opcodeArray ops)"

fun unparseScript :: "optable \<Rightarrow> parsedOpcode list \<Rightarrow> error + byte list" where
  "unparseScript ops [] = Inr []"
| "unparseScript ops (pop # pops) =
     (case bytes ops pop of
        Inl err \<Rightarrow> Inl err
      | Inr b \<Rightarrow> (case unparseScript ops pops of Inl err \<Rightarrow> Inl err | Inr script \<Rightarrow> Inr (b @ script)))"

definition asSmallInt :: "optable \<Rightarrow> opcode \<Rightarrow> int" where
  "asSmallInt ops op =
     (if opcode_value op = Op0 ops then 0 else int (unat (opcode_value op - (Op1 ops - 1))))"

text \<open>
  \<^verbatim>\<open>getSigOpCount\<close>: the \<^verbatim>\<open>range\<close> loop over the indices of \<^verbatim>\<open>pops\<close>, with the counter
  \<^verbatim>\<open>nSigs\<close>. The \<^verbatim>\<open>switch\<close> takes the first case that matches.
\<close>

definition sigOpStep :: "optable \<Rightarrow> parsedOpcode list \<Rightarrow> bool \<Rightarrow> nat \<Rightarrow> int \<Rightarrow> int" where
  "sigOpStep ops pops precise i nSigs =
     (let v = opcode_value (opcode (pops ! i)) in
      if v = OpCheckSig ops \<or> v = OpCheckSigVerify ops then nSigs + 1
      else if v = OpCheckMultiSig ops \<or> v = OpCheckMultiSigVerify ops then
        (if precise \<and> i > 0 \<and>
            opcode_value (opcode (pops ! (i - 1))) \<ge> Op1 ops \<and>
            opcode_value (opcode (pops ! (i - 1))) \<le> Op16 ops
         then nSigs + asSmallInt ops (opcode (pops ! (i - 1)))
         else nSigs + MaxPubKeysPerMultiSig)
      else nSigs)"

definition getSigOpCount :: "optable \<Rightarrow> parsedOpcode list \<Rightarrow> bool \<Rightarrow> int" where
  "getSigOpCount ops pops precise = fold (sigOpStep ops pops precise) [0..<length pops] 0"

definition GetSigOpCount :: "optable \<Rightarrow> byte list \<Rightarrow> int option" where
  "GetSigOpCount ops script =
     (case parseScript ops script of
        None \<Rightarrow> None
      | Some (pops, _) \<Rightarrow> Some (getSigOpCount ops pops False))"

text \<open>A script public key: the script and its version (\<^verbatim>\<open>externalapi.ScriptPublicKey\<close>).\<close>

record ScriptPublicKey =
  Script :: "byte list"
  Version :: "16 word"

text \<open>
  \<^verbatim>\<open>GetPreciseSigOpCount\<close>; \<open>None\<close> only when a parse does not return.
\<close>

definition GetPreciseSigOpCount ::
  "optable \<Rightarrow> byte list \<Rightarrow> ScriptPublicKey \<Rightarrow> bool \<Rightarrow> int option"
where
  "GetPreciseSigOpCount ops scriptSig scriptPubKey isP2SH =
     (case parseScript ops (Script scriptPubKey) of
        None \<Rightarrow> None
      | Some (pops, _) \<Rightarrow>
          if \<not> (isP2SH \<and> isScriptHash ops pops) then Some (getSigOpCount ops pops True)
          else
            (case parseScript ops scriptSig of
               None \<Rightarrow> None
             | Some (sigPops, Some err) \<Rightarrow> Some 0
             | Some (sigPops, None) \<Rightarrow>
                 if \<not> isPushOnly ops sigPops \<or> length sigPops = 0 then Some 0
                 else
                   (let shScript = data (sigPops ! (length sigPops - 1)) in
                    if length shScript = 0 then Some 0
                    else
                      (case parseScript ops shScript of
                         None \<Rightarrow> None
                       | Some (shPops, _) \<Rightarrow> Some (getSigOpCount ops shPops True)))))"

text \<open>
  Modelled from the spec: the transaction types of package externalapi, which is not among
  the sources (section 3: a transaction is \<open>{version, inputs: [{prevOutpoint,
  signatureScript, sequence}], outputs: [{value, scriptPublicKey: {version, script}}],
  lockTime, subnetworkID, gas, payload}\<close>, an outpoint is \<open>(txID, index)\<close>);
  \<^verbatim>\<open>shallowCopyTx\<close> names the fields. A transaction holds its inputs and outputs by
  pointer, and an output holds its script public key by pointer: script.go handles script
  public keys as \<^verbatim>\<open>*externalapi.ScriptPublicKey\<close> throughout. The script public keys
  therefore live in a store of their own, addressed by reference, and an output carries the
  reference; an absent reference is the \<^verbatim>\<open>nil\<close> pointer.
\<close>

record DomainOutpoint =
  TransactionID :: hash
  Index :: "32 word"

record DomainTransactionInput =
  PreviousOutpoint :: DomainOutpoint
  SignatureScript :: "byte list"
  Sequence :: "64 word"

type_synonym spkRef = nat

type_synonym spkStore = "spkRef \<rightharpoonup> ScriptPublicKey"

record DomainTransactionOutput =
  Value :: "64 word"
  ScriptPublicKeyRef :: spkRef

record DomainTransaction =
  TxVersion :: "16 word"
  Inputs :: "DomainTransactionInput list"
  Outputs :: "DomainTransactionOutput list"
  LockTime :: "64 word"
  SubnetworkID :: "byte list"
  Gas :: "64 word"
  PayloadHash :: hash
  Payload :: "byte list"

text \<open>
  \<^verbatim>\<open>shallowCopyTx\<close> allocates fresh input and output structs and copies the old ones into
  them field by field: the copy has the same inputs and outputs by value, and each copied
  output still carries the reference of the original's script public key.
\<close>

definition shallowCopyTx :: "DomainTransaction \<Rightarrow> DomainTransaction" where
  "shallowCopyTx tx =
     \<lparr> TxVersion = TxVersion tx,
       Inputs = map (\<lambda>oldTxIn. oldTxIn) (Inputs tx),
       Outputs = map (\<lambda>oldTxOut. oldTxOut) (Outputs tx),
       LockTime = LockTime tx,
       SubnetworkID = SubnetworkID tx,
       Gas = Gas tx,
       PayloadHash = PayloadHash tx,
       Payload = Payload tx \<rparr>"

text \<open>\<^verbatim>\<open>binary.LittleEndian.PutUint16\<close> into a 2-byte array.\<close>

definition PutUint16 :: "16 word \<Rightarrow> byte list" where
  "PutUint16 v = [ucast v, ucast (drop_bit 8 v)]"

text \<open>
  The first loop of \<^verbatim>\<open>calcSignatureHash\<close> over the inputs of the copy, from index \<open>i\<close> on:
  the input at \<^verbatim>\<open>idx\<close> gets the version and the script, every other one \<^verbatim>\<open>nil\<close>.
\<close>

fun setSignatureScripts ::
  "int \<Rightarrow> byte list \<Rightarrow> int \<Rightarrow> DomainTransactionInput list \<Rightarrow> DomainTransactionInput list"
where
  "setSignatureScripts idx script i [] = []"
| "setSignatureScripts idx script i (txIn # txIns) =
     (if i = idx then txIn\<lparr>SignatureScript := script\<rparr> else txIn\<lparr>SignatureScript := []\<rparr>)
     # setSignatureScripts idx script (i + 1) txIns"

text \<open>The loop \<^verbatim>\<open>if i != idx { txCopy.Inputs[i].Sequence = 0 }\<close>.\<close>

fun zeroOtherSequences :: "int \<Rightarrow> int \<Rightarrow> DomainTransactionInput list \<Rightarrow> DomainTransactionInput list" where
  "zeroOtherSequences idx i [] = []"
| "zeroOtherSequences idx i (txIn # txIns) =
     (if i \<noteq> idx then txIn\<lparr>Sequence := 0\<rparr> else txIn) # zeroOtherSequences idx (i + 1) txIns"

text \<open>
  The loop of the \<^verbatim>\<open>SigHashSingle\<close> case over the outputs before \<^verbatim>\<open>idx\<close>:
  \<^verbatim>\<open>Value = 0\<close> is written into the copied output, \<^verbatim>\<open>ScriptPublicKey.Script = nil\<close> and
  \<^verbatim>\<open>ScriptPublicKey.Version = 0\<close> through the output's pointer, into the store. A \<^verbatim>\<open>nil\<close>
  pointer panics (\<open>None\<close> for the outputs), after the writes made before it.
\<close>

fun zeroOutputs ::
  "spkStore \<Rightarrow> DomainTransactionOutput list \<Rightarrow> DomainTransactionOutput list option \<times> spkStore"
where
  "zeroOutputs store [] = (Some [], store)"
| "zeroOutputs store (txOut # txOuts) =
     (case store (ScriptPublicKeyRef txOut) of
        None \<Rightarrow> (None, store)
      | Some spk \<Rightarrow>
          (case zeroOutputs
                  (store(ScriptPublicKeyRef txOut \<mapsto> spk\<lparr>Script := [], Version := 0\<rparr>)) txOuts of
             (None, store') \<Rightarrow> (None, store')
           | (Some outs, store') \<Rightarrow> (Some (txOut\<lparr>Value := 0\<rparr> # outs), store')))"

text \<open>
  \<^verbatim>\<open>consensushashing.TransactionHashForSigning\<close> is not among the sources: a parameter,
  which reads the modified copy, the script public keys it points to and the hash type.
\<close>

type_synonym signingHash = "spkStore \<Rightarrow> DomainTransaction \<Rightarrow> 32 word \<Rightarrow> hash"

text \<open>
  \<^verbatim>\<open>calcSignatureHash\<close>. The result is the returned pair (hash or error; \<open>None\<close> for a
  panic on a slice bound or a \<^verbatim>\<open>nil\<close> pointer) and the store of script public keys after
  the call. \<^verbatim>\<open>idx\<close> is an \<^verbatim>\<open>int\<close>.
\<close>

definition calcSignatureHash ::
  "optable \<Rightarrow> signingHash \<Rightarrow> spkStore \<Rightarrow> parsedOpcode list \<Rightarrow> 16 word \<Rightarrow> SigHashType \<Rightarrow>
   DomainTransaction \<Rightarrow> int \<Rightarrow> (error + hash) option \<times> spkStore"
where
  "calcSignatureHash ops hashForSigning store prevScriptPublicKey scriptVersion hashType tx idx =
     (if hashType AND sigHashMask = SigHashSingle \<and> idx \<ge> int (length (Outputs tx))
      then (Some (Inl (ScriptError ErrInvalidSigHashSingleIndex)), store)
      else
        (let txCopy = (shallowCopyTx tx)\<lparr>Payload := []\<rparr>;
             sigScript = (case unparseScript ops prevScriptPublicKey of Inl err \<Rightarrow> [] | Inr s \<Rightarrow> s);
             txCopy = txCopy\<lparr>Inputs :=
               setSignatureScripts idx (PutUint16 scriptVersion @ sigScript) 0 (Inputs txCopy)\<rparr>;
             (txCopy', store') =
               (if hashType AND sigHashMask = SigHashNone then
                  (Some (txCopy\<lparr>Outputs := [], Inputs := zeroOtherSequences idx 0 (Inputs txCopy)\<rparr>),
                   store)
                else if hashType AND sigHashMask = SigHashSingle then
                  (if idx + 1 < 0 then (None, store)
                   else
                     (case zeroOutputs store (take (nat idx) (Outputs txCopy)) of
                        (None, store') \<Rightarrow> (None, store')
                      | (Some zeroed, store') \<Rightarrow>
                          (Some (txCopy\<lparr>
                              Outputs := zeroed @ drop (nat idx) (take (nat (idx + 1)) (Outputs txCopy)),
                              Inputs := zeroOtherSequences idx 0 (Inputs txCopy)\<rparr>),
                           store')))
                else (Some txCopy, store))
         in case txCopy' of
              None \<Rightarrow> (None, store')
            | Some txCopy \<Rightarrow>
                if hashType AND SigHashAnyOneCanPay \<noteq> 0 then
                  (if idx < 0 \<or> idx + 1 > int (length (Inputs txCopy)) then (None, store')
                   else (Some (Inr (hashForSigning store'
                           (txCopy\<lparr>Inputs := take 1 (drop (nat idx) (Inputs txCopy))\<rparr>) hashType)),
                         store'))
                else (Some (Inr (hashForSigning store' txCopy hashType)), store')))"

text \<open>
  \<^verbatim>\<open>CalcSignatureHash\<close>; \<^verbatim>\<open>constants.MaxScriptPublicKeyVersion\<close> is not among the sources and
  is a parameter. A parse that does not return leaves no result.
\<close>

definition CalcSignatureHash ::
  "optable \<Rightarrow> signingHash \<Rightarrow> 16 word \<Rightarrow> spkStore \<Rightarrow> ScriptPublicKey \<Rightarrow> SigHashType \<Rightarrow>
   DomainTransaction \<Rightarrow> int \<Rightarrow> (error + hash) option \<times> spkStore"
where
  "CalcSignatureHash ops hashForSigning MaxScriptPublicKeyVersion store script hashType tx idx =
     (if Version script > MaxScriptPublicKeyVersion
      then (Some (Inl (Errorf ''Script version is unkown.'')), store)
      else
        (case parseScript ops (Script script) of
           None \<Rightarrow> (None, store)
         | Some (parsedScript, Some err) \<Rightarrow> (Some (Inl (Errorf ''cannot parse output script'')), store)
         | Some (parsedScript, None) \<Rightarrow>
             calcSignatureHash ops hashForSigning store parsedScript (Version script) hashType tx idx))"

text \<open>
  The contribution of one parsed opcode to the count, given the opcode parsed immediately
  before it (\<open>None\<close> for the first one), in the words of the rule: a check-sig counts 1; a
  check-multisig counts, in precise mode after one of \<^verbatim>\<open>OP_1\<close> .. \<^verbatim>\<open>OP_16\<close>, that
  opcode's number, and otherwise the maximum of 20; nothing else counts.
\<close>

definition sigOpContribution :: "optable \<Rightarrow> bool \<Rightarrow> parsedOpcode option \<Rightarrow> parsedOpcode \<Rightarrow> int" where
  "sigOpContribution ops precise prev pop =
     (if opcode_value (opcode pop) = OpCheckSig ops \<or>
         opcode_value (opcode pop) = OpCheckSigVerify ops then 1
      else if opcode_value (opcode pop) = OpCheckMultiSig ops \<or>
              opcode_value (opcode pop) = OpCheckMultiSigVerify ops then
        (case prev of
           None \<Rightarrow> 20
         | Some p \<Rightarrow>
             if precise \<and> Op1 ops \<le> opcode_value (opcode p) \<and> opcode_value (opcode p) \<le> Op16 ops
             then asSmallInt ops (opcode p) else 20)
      else 0)"

text \<open>
  Modelled from the spec: the opcode table of opcode.go, which is not among the sources. The
  spec names the opcodes (\<^verbatim>\<open>OP_0\<close>, \<^verbatim>\<open>OP_1\<close> .. \<^verbatim>\<open>OP_16\<close>, \<^verbatim>\<open>OP_DATA_20\<close>, \<^verbatim>\<open>OP_HASH160\<close>,
  \<^verbatim>\<open>OP_EQUAL\<close>, \<^verbatim>\<open>OP_CHECKSIG\<close>, \<^verbatim>\<open>OP_CHECKMULTISIG\<close>, "each opcode has a fixed or
  length-prefixed data payload"); the byte values are those of the standard script
  numbering. It is the table at which the examples below are evaluated.
\<close>

definition stdOpcodeArray :: "byte \<Rightarrow> opcode" where
  "stdOpcodeArray b =
     Opcode b
       (if 0x01 \<le> b \<and> b \<le> 0x4b then int (unat b) + 1
        else if b = 0x4c then -1
        else if b = 0x4d then -2
        else if b = 0x4e then -4
        else 1)"

fun littleEndianBytes :: "nat \<Rightarrow> nat \<Rightarrow> byte list" where
  "littleEndianBytes 0 l = []"
| "littleEndianBytes (Suc n) l = of_nat (l mod 256) # littleEndianBytes n (l div 256)"

definition stdBytes :: "parsedOpcode \<Rightarrow> error + byte list" where
  "stdBytes pop =
     (let op = opcode pop in
      if opcode_length op = 1 then
        (if data pop \<noteq> [] then Inl (Errorf ''internal consistency error'')
         else Inr [opcode_value op])
      else if opcode_length op > 1 then
        (if int (length (data pop)) + 1 \<noteq> opcode_length op
         then Inl (Errorf ''internal consistency error'')
         else Inr (opcode_value op # data pop))
      else Inr (opcode_value op #
                littleEndianBytes (nat (- opcode_length op)) (length (data pop)) @ data pop))"

definition stdOps :: optable where
  "stdOps =
     \<lparr> opcodeArray = stdOpcodeArray, bytes = stdBytes,
       Op0 = 0x00, Op1 = 0x51, Op16 = 0x60, OpData20 = 0x14, OpHash160 = 0xa9, OpEqual = 0x87,
       OpCheckSig = 0xac, OpCheckSigVerify = 0xad,
       OpCheckMultiSig = 0xae, OpCheckMultiSigVerify = 0xaf \<rparr>"

text \<open>A pay-to-script-hash script public key, with the hash \<open>h\<close> (20 bytes).\<close>

definition p2shScript :: "byte list \<Rightarrow> ScriptPublicKey" where
  "p2shScript h = \<lparr> Script = [0xa9, 0x14] @ h @ [0x87], Version = 0 \<rparr>"

text \<open>
  A transaction with 3 inputs and 2 outputs, and the store that holds the script public
  keys of its outputs at the references 0 and 1.
\<close>

definition exampleInput :: "32 word \<Rightarrow> DomainTransactionInput" where
  "exampleInput i =
     \<lparr> PreviousOutpoint = \<lparr> TransactionID = 7, Index = i \<rparr>,
       SignatureScript = [0x51], Sequence = 0xffffffffffffffff \<rparr>"

definition exampleTx :: DomainTransaction where
  "exampleTx =
     \<lparr> TxVersion = 0,
       Inputs = [exampleInput 0, exampleInput 1, exampleInput 2],
       Outputs = [\<lparr> Value = 100, ScriptPublicKeyRef = 0 \<rparr>, \<lparr> Value = 200, ScriptPublicKeyRef = 1 \<rparr>],
       LockTime = 0, SubnetworkID = replicate 20 0, Gas = 0, PayloadHash = 0, Payload = [] \<rparr>"

text \<open>
  A stand-in for \<^verbatim>\<open>TransactionHashForSigning\<close> in the examples, which do not depend on the
  value of the hash.
\<close>

definition exampleSigningHash :: signingHash where
  "exampleSigningHash store tx hashType = 0"

definition exampleStore :: spkStore where
  "exampleStore = [0 \<mapsto> \<lparr> Script = [0x51], Version = 0 \<rparr>, 1 \<mapsto> \<lparr> Script = [0x52], Version = 0 \<rparr>]"

section \<open>UTXO iterator with diff (domain/consensus/utils/utxo/utxo_iterator_with_diff.go)\<close>

text \<open>
  Modelled from the spec: \<^verbatim>\<open>externalapi.UTXOEntry\<close> (not among the sources), section 3:
  \<open>{amount, scriptPubKey, blockBlueScore, isCoinbase}\<close>.
\<close>

record UTXOEntry =
  Amount :: "64 word"
  EntryScriptPublicKey :: ScriptPublicKey
  BlockBlueScore :: "64 word"
  IsCoinbase :: bool

text \<open>
  Modelled from the spec: \<^verbatim>\<open>utxoCollection\<close> and \<^verbatim>\<open>utxoDiff\<close> (utxo_collection.go and
  utxo_diff.go are not among the sources). Section 3 gives a collection as a set of
  (outpoint, entry) pairs in which an outpoint appears at most once, and a diff as the two
  collections \<^verbatim>\<open>toAdd\<close> and \<^verbatim>\<open>toRemove\<close>. The pairs are listed in the order in which the
  collection's iterator yields them. \<^verbatim>\<open>containsWithBlueScore(outpoint, blueScore)\<close>, as it is
  named and as \<^verbatim>\<open>Next\<close> calls it, holds when the collection has the outpoint with an entry of
  that block blue score.
\<close>

type_synonym utxoCollection = "(DomainOutpoint \<times> UTXOEntry) list"

record utxoDiff =
  toAdd :: utxoCollection
  toRemove :: utxoCollection

definition containsWithBlueScore :: "utxoCollection \<Rightarrow> DomainOutpoint \<Rightarrow> 64 word \<Rightarrow> bool" where
  "containsWithBlueScore collection outpoint blueScore =
     (case map_of collection outpoint of
        None \<Rightarrow> False
      | Some entry \<Rightarrow> BlockBlueScore entry = blueScore)"

text \<open>
  The interface \<^verbatim>\<open>model.UTXODiff\<close>: a \<^verbatim>\<open>*utxoDiff\<close>, or some other implementation, for which
  the type assertion of \<^verbatim>\<open>IteratorWithDiff\<close> fails.
\<close>

datatype UTXODiff = UtxoDiff utxoDiff | OtherUTXODiff

text \<open>
  What \<^verbatim>\<open>Get\<close> returns: an outpoint, an entry (\<open>None\<close> for a \<^verbatim>\<open>nil\<close> entry) and an error
  (\<open>None\<close> for \<^verbatim>\<open>nil\<close>).
\<close>

type_synonym utxoResult = "DomainOutpoint \<times> UTXOEntry option \<times> error option"

text \<open>
  Modelled from the spec: an implementation of \<^verbatim>\<open>model.ReadOnlyUTXOSetIterator\<close> other than
  \<^verbatim>\<open>readOnlyUTXOIteratorWithDiff\<close> (none is among the sources). Section 9: a pull-based
  iterator, whose \<^verbatim>\<open>Next\<close> moves to the next item or reports the end of the stream; \<^verbatim>\<open>Get\<close>
  returns the item it stands on. Its state is the results still to come and the current
  one.
\<close>

record baseUTXOIterator =
  remaining :: "utxoResult list"
  current :: "utxoResult option"

definition baseNext :: "baseUTXOIterator \<Rightarrow> bool \<times> baseUTXOIterator" where
  "baseNext it =
     (case remaining it of
        [] \<Rightarrow> (False, it)
      | x # xs \<Rightarrow> (True, it\<lparr>remaining := xs, current := Some x\<rparr>))"

definition baseGet :: "baseUTXOIterator \<Rightarrow> utxoResult option" where
  "baseGet it = current it"

text \<open>\<^verbatim>\<open>utxoCollection.Iterator()\<close>: the pairs of the collection, without errors.\<close>

definition collectionIterator :: "utxoCollection \<Rightarrow> baseUTXOIterator" where
  "collectionIterator collection =
     \<lparr> remaining = map (\<lambda>(outpoint, entry). (outpoint, Some entry, None)) collection,
       current = None \<rparr>"

text \<open>
  \<^verbatim>\<open>readOnlyUTXOIteratorWithDiff\<close>. \<^verbatim>\<open>IteratorWithDiff\<close> is what builds it, and it never puts
  an iterator with diff under another one: the base iterator is one of the other kind.
\<close>

record readOnlyUTXOIteratorWithDiff =
  baseIterator :: baseUTXOIterator
  diff :: utxoDiff
  currentOutpoint :: "DomainOutpoint option"
  currentUTXOEntry :: "UTXOEntry option"
  currentErr :: "error option"
  toAddIterator :: baseUTXOIterator

datatype ReadOnlyUTXOSetIterator =
  BaseIterator baseUTXOIterator
| IteratorWithDiffOf readOnlyUTXOIteratorWithDiff

text \<open>
  \<^verbatim>\<open>IteratorWithDiff\<close>. \<^verbatim>\<open>utxoDiff.WithDiff\<close>, which combines two diffs, is not among the
  sources: the parameter \<open>WithDiff\<close>.
\<close>

function IteratorWithDiff ::
  "(utxoDiff \<Rightarrow> utxoDiff \<Rightarrow> error + utxoDiff) \<Rightarrow> ReadOnlyUTXOSetIterator \<Rightarrow> UTXODiff \<Rightarrow>
   error + readOnlyUTXOIteratorWithDiff"
where
  "IteratorWithDiff WithDiff iterator OtherUTXODiff = Inl (Errorf ''diff is not of type *utxoDiff'')"
| "IteratorWithDiff WithDiff (IteratorWithDiffOf iteratorWithDiff) (UtxoDiff d) =
     (case WithDiff (diff iteratorWithDiff) d of
        Inl err \<Rightarrow> Inl err
      | Inr combinedDiff \<Rightarrow>
          IteratorWithDiff WithDiff (BaseIterator (baseIterator iteratorWithDiff)) (UtxoDiff combinedDiff))"
| "IteratorWithDiff WithDiff (BaseIterator iterator) (UtxoDiff d) =
     Inr \<lparr> baseIterator = iterator, diff = d,
           currentOutpoint = None, currentUTXOEntry = None, currentErr = None,
           toAddIterator = collectionIterator (toAdd d) \<rparr>"
  by pat_completeness auto
termination
  by (relation "measure (\<lambda>(WithDiff, iterator, d).
        case iterator of BaseIterator _ \<Rightarrow> 0 | IteratorWithDiffOf _ \<Rightarrow> 1)") auto

text \<open>
  \<^verbatim>\<open>Next\<close> of the iterator with diff: the new state and the boolean. The \<^verbatim>\<open>for\<close> loop runs
  over the base iterator; \<^verbatim>\<open>BlockBlueScore()\<close> on a \<^verbatim>\<open>nil\<close> entry panics (\<open>None\<close>).
\<close>

function Next ::
  "readOnlyUTXOIteratorWithDiff \<Rightarrow> (bool \<times> readOnlyUTXOIteratorWithDiff) option"
where
  "Next r =
     (case baseNext (baseIterator r) of
        (True, base) \<Rightarrow>
          (case baseGet base of
             None \<Rightarrow> None
           | Some (outpoint, entry, err) \<Rightarrow>
               (let r' = r\<lparr>baseIterator := base, currentOutpoint := Some outpoint,
                             currentUTXOEntry := entry, currentErr := err\<rparr>
                in case entry of
                     None \<Rightarrow> None
                   | Some e \<Rightarrow>
                       if \<not> containsWithBlueScore (toRemove (diff r')) outpoint (BlockBlueScore e)
                       then Some (True, r')
                       else Next r'))
      | (False, base) \<Rightarrow>
          (case baseNext (toAddIterator r) of
             (True, added) \<Rightarrow>
               (case baseGet added of
                  None \<Rightarrow> None
                | Some (outpoint, entry, err) \<Rightarrow>
                    Some (True, r\<lparr>baseIterator := base, toAddIterator := added,
                                   currentOutpoint := Some outpoint,
                                   currentUTXOEntry := entry, currentErr := err\<rparr>))
           | (False, added) \<Rightarrow> Some (False, r\<lparr>baseIterator := base, toAddIterator := added\<rparr>)))"
  by pat_completeness auto
termination
  by (relation "measure (\<lambda>r. length (remaining (baseIterator r)))")
    (auto simp: baseNext_def split: list.splits)

declare Next.simps [simp del]

definition Get :: "readOnlyUTXOIteratorWithDiff \<Rightarrow> DomainOutpoint option \<times> UTXOEntry option \<times> error option" where
  "Get r = (currentOutpoint r, currentUTXOEntry r, currentErr r)"

text \<open>
  What a caller reads off the iterator: it calls \<^verbatim>\<open>Next\<close> until it returns false and reads
  \<^verbatim>\<open>Get\<close> after each call that returned true.
\<close>

function yields ::
  "readOnlyUTXOIteratorWithDiff \<Rightarrow>
   (DomainOutpoint option \<times> UTXOEntry option \<times> error option) list option"
where
  "yields r =
     (case Next r of
        None \<Rightarrow> None
      | Some (False, r') \<Rightarrow> Some []
      | Some (True, r') \<Rightarrow> map_option ((#) (Get r')) (yields r'))"
  by pat_completeness auto
termination
proof -
  have dec: "Next r = Some (True, r') \<Longrightarrow>
      length (remaining (baseIterator r')) + length (remaining (toAddIterator r'))
      < length (remaining (baseIterator r)) + length (remaining (toAddIterator r))" for r r'
  proof (induction xs \<equiv> "remaining (baseIterator r)" arbitrary: r)
    case Nil
    from Nil(2) Nil(1) [symmetric] show ?case
      by (subst (asm) Next.simps)
        (auto simp: baseNext_def baseGet_def split: list.splits option.splits)
  next
    case (Cons x xs)
    note rem = Cons(2) [symmetric]
    obtain outpoint entry err where x: "x = (outpoint, entry, err)"
      by (cases x)
    let ?base = "(baseIterator r)\<lparr>remaining := xs, current := Some x\<rparr>"
    let ?r' = "r\<lparr>baseIterator := ?base, currentOutpoint := Some outpoint,
                    currentUTXOEntry := entry, currentErr := err\<rparr>"
    show ?case
    proof (cases entry)
      case None
      with Cons(3) rem x show ?thesis
        by (subst (asm) Next.simps) (simp add: baseNext_def baseGet_def)
    next
      case (Some e)
      show ?thesis
      proof (cases "containsWithBlueScore (toRemove (diff r)) outpoint (BlockBlueScore e)")
        case False
        with Cons(3) rem x Some show ?thesis
          by (subst (asm) Next.simps) (auto simp: baseNext_def baseGet_def)
      next
        case True
        with Cons(3) rem x Some have n: "Next ?r' = Some (True, r')"
          by (subst (asm) Next.simps) (simp add: baseNext_def baseGet_def)
        have "length (remaining (baseIterator r')) + length (remaining (toAddIterator r'))
            < length (remaining (baseIterator ?r')) + length (remaining (toAddIterator ?r'))"
          by (rule Cons(1) [OF _ n]) simp
        then show ?thesis
          using rem by simp
      qed
    qed
  qed
  show ?thesis
    by (relation "measure (\<lambda>r. length (remaining (baseIterator r)) +
                               length (remaining (toAddIterator r)))")
      (auto dest: dec)
qed

declare yields.simps [simp del]

text \<open>
  A result of the base iterator is kept when the collection \<^verbatim>\<open>toRemove\<close> does not have its
  outpoint with the block blue score of its entry; \<open>yielded\<close> is what \<^verbatim>\<open>Get\<close> returns for
  it.
\<close>

definition kept :: "utxoCollection \<Rightarrow> utxoResult \<Rightarrow> bool" where
  "kept collection =
     (\<lambda>(outpoint, entry, err).
        case entry of
          None \<Rightarrow> False
        | Some e \<Rightarrow> \<not> containsWithBlueScore collection outpoint (BlockBlueScore e))"

definition yielded :: "utxoResult \<Rightarrow> DomainOutpoint option \<times> UTXOEntry option \<times> error option" where
  "yielded = (\<lambda>(outpoint, entry, err). (Some outpoint, entry, err))"

text \<open>Entries and outpoints for the examples: the entry of block blue score \<open>s\<close>.\<close>

definition exampleEntry :: "64 word \<Rightarrow> UTXOEntry" where
  "exampleEntry s =
     \<lparr> Amount = 1, EntryScriptPublicKey = \<lparr> Script = [0x51], Version = 0 \<rparr>,
       BlockBlueScore = s, IsCoinbase = False \<rparr>"

definition exampleOutpoint :: "32 word \<Rightarrow> DomainOutpoint" where
  "exampleOutpoint i = \<lparr> TransactionID = 7, Index = i \<rparr>"

text \<open>
  A stand-in for \<^verbatim>\<open>utxoDiff.WithDiff\<close> in the examples: their base iterator is not an
  iterator with diff, so it is never called.
\<close>

definition exampleWithDiff :: "utxoDiff \<Rightarrow> utxoDiff \<Rightarrow> error + utxoDiff" where
  "exampleWithDiff d1 d2 = Inl (Errorf ''WithDiff is not among the sources'')"

section \<open>GHOSTDAG (the test TestGHOSTDA and section 4.2)\<close>

text \<open>
  Modelled from the spec: \<^verbatim>\<open>model.BlockGHOSTDAGData\<close> (package model is not among the
  sources), section 3: \<open>{blueScore, blueWork, selectedParent, mergeSetBlues: [H],
  mergeSetReds: [H], bluesAnticoneSizes: H \<rightarrow> u8}\<close>, with \<open>selectedParent = \<bottom>\<close> for genesis.
  The GHOSTDAG test of the repository fills and reads the fields \<^verbatim>\<open>BlueScore\<close> (a
  \<^verbatim>\<open>uint64\<close>), \<^verbatim>\<open>SelectedParent\<close>, \<^verbatim>\<open>MergeSetBlues\<close>, \<^verbatim>\<open>MergeSetReds\<close> and
  \<^verbatim>\<open>BluesAnticoneSizes\<close>.
\<close>

record BlockGHOSTDAGData =
  blueScore :: "64 word"
  blueWork :: nat
  selectedParent :: "hash option"
  mergeSetBlues :: "hash list"
  mergeSetReds :: "hash list"
  bluesAnticoneSizes :: "hash \<rightharpoonup> 8 word"

text \<open>
  The stores of the GHOSTDAG test (\<^verbatim>\<open>TestGHOSTDA\<close>): \<^verbatim>\<open>GHOSTDAGDataStoreImpl.dagMap\<close> with
  \<^verbatim>\<open>Stage\<close> and \<^verbatim>\<open>Get\<close>, and \<^verbatim>\<open>DAGTopologyManagerImpl.parentsMap\<close> with \<^verbatim>\<open>Parents\<close>, which
  returns the empty list for a block it does not know.
\<close>

type_synonym GHOSTDAGDataStore = "hash \<rightharpoonup> BlockGHOSTDAGData"

definition Stage :: "GHOSTDAGDataStore \<Rightarrow> hash \<Rightarrow> BlockGHOSTDAGData \<Rightarrow> GHOSTDAGDataStore" where
  "Stage dagMap blockHash blockGHOSTDAGData = dagMap(blockHash \<mapsto> blockGHOSTDAGData)"

definition Parents :: "(hash \<rightharpoonup> hash list) \<Rightarrow> hash \<Rightarrow> hash list" where
  "Parents parentsMap blockHash =
     (case parentsMap blockHash of None \<Rightarrow> [] | Some blockData \<Rightarrow> blockData)"

text \<open>
  The hashes of the test are \<^verbatim>\<open>DomainHash{n}\<close>: the first byte is \<open>n\<close> and the others are 0.
  They order as the numbers \<open>n\<close> do, and are written \<open>n\<close> here; \<^verbatim>\<open>genesisHash\<close> (here \<open>genesisHash'\<close>) is
  \<^verbatim>\<open>DomainHash{}\<close>, written 0.

  The GHOSTDAG data that the test stores for genesis before it runs:
  \<^verbatim>\<open>BlueScore: 1, SelectedParent: nil, MergeSetBlues: nil, MergeSetReds: nil,
  BluesAnticoneSizes: nil\<close>. The test has no blue work; every block of the test has the
  same work, here 1, so that the blue work of a block is its blue score.
\<close>

definition genesisHash' :: hash where
  "genesisHash' = 0"

definition genesisGHOSTDAGData :: BlockGHOSTDAGData where
  "genesisGHOSTDAGData =
     \<lparr> blueScore = 1, blueWork = 1, selectedParent = None,
       mergeSetBlues = [], mergeSetReds = [], bluesAnticoneSizes = Map.empty \<rparr>"

text \<open>
  A row of the test tables: the block, its parents and what the test expects of its
  GHOSTDAG data.
\<close>

record testGhostdagData =
  hash :: hash
  parents :: "hash list"
  expectedBlueScore :: "64 word"
  expectedSelectedParent :: hash
  expectedMergeSetBlues :: "hash list"
  expectedMergeSetReds :: "hash list"

definition testRow ::
  "hash \<Rightarrow> hash list \<Rightarrow> 64 word \<Rightarrow> hash \<Rightarrow> hash list \<Rightarrow> hash list \<Rightarrow> testGhostdagData"
where
  "testRow h ps score sp blues reds =
     \<lparr> hash = h, parents = ps, expectedBlueScore = score, expectedSelectedParent = sp,
       expectedMergeSetBlues = blues, expectedMergeSetReds = reds \<rparr>"

text \<open>The six test DAGs (\<^verbatim>\<open>dag1\<close> .. \<^verbatim>\<open>dag6\<close>), with k = 0, 3, 3, 1, 2, 3.\<close>

definition dag1 :: "testGhostdagData list" where
  "dag1 =
     [testRow 1 [0] 2 0 [0] [],
      testRow 2 [1] 3 1 [1] [],
      testRow 3 [2] 4 2 [2] []]"

definition dag2 :: "testGhostdagData list" where
  "dag2 =
     [testRow 1 [0] 2 0 [0] [],
      testRow 2 [1] 3 1 [1] [],
      testRow 3 [1] 3 1 [1] [],
      testRow 4 [1] 3 1 [1] [],
      testRow 5 [2, 3, 4] 6 4 [4, 2, 3] [],
      testRow 6 [0] 2 0 [0] [],
      testRow 7 [6] 3 6 [6] [],
      testRow 8 [7] 4 7 [7] [],
      testRow 9 [8] 5 8 [8] [],
      testRow 10 [5, 9] 7 5 [5] [6, 7, 8, 9]]"

definition dag3 :: "testGhostdagData list" where
  "dag3 =
     [testRow 1 [0] 2 0 [0] [],
      testRow 2 [1] 3 1 [1] [],
      testRow 3 [1] 3 1 [1] [],
      testRow 4 [1] 3 1 [1] [],
      testRow 5 [2, 3, 4] 6 4 [4, 2, 3] [],
      testRow 6 [5] 7 5 [5] []]"

definition dag4 :: "testGhostdagData list" where
  "dag4 =
     [testRow 1 [0] 2 0 [0] [],
      testRow 2 [1] 3 1 [1] [],
      testRow 3 [0] 2 0 [0] [],
      testRow 4 [2, 3] 4 2 [2] [3]]"

definition dag5 :: "testGhostdagData list" where
  "dag5 =
     [testRow 1 [0] 2 0 [0] [],
      testRow 2 [0] 2 0 [0] [],
      testRow 5 [1] 3 1 [1] [],
      testRow 4 [2] 3 2 [2] [],
      testRow 3 [2] 3 2 [2] [],
      testRow 7 [3, 5] 6 5 [5, 2, 3] [],
      testRow 6 [5, 4] 6 5 [5, 2, 4] [],
      testRow 8 [3] 4 3 [3] [],
      testRow 9 [6, 7, 8] 7 7 [7] [4, 8, 6]]"

definition dag6 :: "testGhostdagData list" where
  "dag6 =
     [testRow 1 [0] 2 0 [0] [],
      testRow 2 [0] 2 0 [0] [],
      testRow 3 [0] 2 0 [0] [],
      testRow 4 [0] 2 0 [0] [],
      testRow 6 [1, 2, 3, 4] 6 4 [4, 1, 2, 3] [],
      testRow 5 [1, 2, 3] 5 3 [3, 1, 2] [],
      testRow 7 [5, 6] 7 6 [6] [5]]"

text \<open>
  The GHOSTDAG data that the test expects for a row, and the store that holds genesis and
  the expected data of the rows of a test DAG.
\<close>

definition expectedData :: "testGhostdagData \<Rightarrow> BlockGHOSTDAGData" where
  "expectedData row =
     \<lparr> blueScore = expectedBlueScore row, blueWork = unat (expectedBlueScore row),
       selectedParent = Some (expectedSelectedParent row),
       mergeSetBlues = expectedMergeSetBlues row, mergeSetReds = expectedMergeSetReds row,
       bluesAnticoneSizes = Map.empty \<rparr>"

definition expectedStore :: "testGhostdagData list \<Rightarrow> GHOSTDAGDataStore" where
  "expectedStore rows =
     fold (\<lambda>row dagMap. Stage dagMap (hash row) (expectedData row)) rows
       [genesisHash' \<mapsto> genesisGHOSTDAGData]"

text \<open>
  Modelled from the spec: the GHOSTDAG engine (packages ghostdagmanager and ghostdag2 are
  not among the sources; only their test is), section 4.2. Step 1: "pick the parent in P
  maximising blueWork"; on the tie the spec has two sentences, "ties broken by lower hash"
  and, for the test DAG, "selectedParent(5)=4 (highest hash tie-break)": the test of the
  repository expects 4 among the tied parents 2, 3 and 4, so the greater hash wins here.
  A parent without GHOSTDAG data leaves no selected parent.
\<close>

definition betterParent :: "hash \<times> BlockGHOSTDAGData \<Rightarrow> hash \<times> BlockGHOSTDAGData \<Rightarrow> bool" where
  "betterParent a b =
     (blueWork (snd a) > blueWork (snd b) \<or>
      (blueWork (snd a) = blueWork (snd b) \<and> fst a > fst b))"

fun lookupParents ::
  "GHOSTDAGDataStore \<Rightarrow> hash list \<Rightarrow> (hash \<times> BlockGHOSTDAGData) list option"
where
  "lookupParents dagMap [] = Some []"
| "lookupParents dagMap (p # ps) =
     (case dagMap p of
        None \<Rightarrow> None
      | Some d \<Rightarrow> map_option ((#) (p, d)) (lookupParents dagMap ps))"

fun chooseSelectedParent ::
  "hash \<times> BlockGHOSTDAGData \<Rightarrow> (hash \<times> BlockGHOSTDAGData) list \<Rightarrow> hash \<times> BlockGHOSTDAGData"
where
  "chooseSelectedParent best [] = best"
| "chooseSelectedParent best (p # ps) =
     chooseSelectedParent (if betterParent p best then p else best) ps"

definition findSelectedParent ::
  "GHOSTDAGDataStore \<Rightarrow> hash list \<Rightarrow> (hash \<times> BlockGHOSTDAGData) option"
where
  "findSelectedParent dagMap blockParents =
     (case lookupParents dagMap blockParents of
        None \<Rightarrow> None
      | Some [] \<Rightarrow> None
      | Some (p # ps) \<Rightarrow> Some (chooseSelectedParent p ps))"

text \<open>
  Modelled from the spec: steps 2 to 5 of section 4.2. The merge set in its iteration order
  (step 2 and the determinism requirement), the k-cluster test of step 3, the anticone sizes
  recorded with the blues and the work of a block (step 5) are parameters:
  \<open>mergeSetOf dagMap selected blockParents\<close> is the ordered merge set and
  \<open>keepsKCluster dagMap blues candidate\<close> tells whether the candidate stays blue next to the
  blues found so far.
\<close>

record ghostdagEngine =
  mergeSetOf :: "GHOSTDAGDataStore \<Rightarrow> hash \<Rightarrow> hash list \<Rightarrow> hash list"
  keepsKCluster :: "GHOSTDAGDataStore \<Rightarrow> hash list \<Rightarrow> hash \<Rightarrow> bool"
  anticoneSizes :: "GHOSTDAGDataStore \<Rightarrow> hash list \<Rightarrow> hash \<rightharpoonup> 8 word"
  work :: "hash \<Rightarrow> nat"

fun colourMergeSet ::
  "ghostdagEngine \<Rightarrow> GHOSTDAGDataStore \<Rightarrow> hash list \<Rightarrow> hash list \<Rightarrow> hash list \<Rightarrow>
   hash list \<times> hash list"
where
  "colourMergeSet engine dagMap blues reds [] = (blues, reds)"
| "colourMergeSet engine dagMap blues reds (c # cs) =
     (if keepsKCluster engine dagMap blues c
      then colourMergeSet engine dagMap (blues @ [c]) reds cs
      else colourMergeSet engine dagMap blues (reds @ [c]) cs)"

text \<open>
  Modelled from the spec: \<^verbatim>\<open>GHOSTDAG(blockHash)\<close> for a newly connected block, as the test
  calls it: the parents come from \<^verbatim>\<open>Parents\<close>, the result is the store with the data of the
  block staged; \<open>None\<close> (an error) when the block has no parent or a parent has no data.
  Step 4: the blue score is that of the selected parent plus the number of merge-set blues
  (in \<^verbatim>\<open>uint64\<close>); step 5: the blue work is that of the selected parent plus the work of the
  merge-set blues.
\<close>

definition GHOSTDAG ::
  "ghostdagEngine \<Rightarrow> (hash \<rightharpoonup> hash list) \<Rightarrow> GHOSTDAGDataStore \<Rightarrow> hash \<Rightarrow>
   GHOSTDAGDataStore option"
where
  "GHOSTDAG engine parentsMap dagMap blockHash =
     (let blockParents = Parents parentsMap blockHash in
      case findSelectedParent dagMap blockParents of
        None \<Rightarrow> None
      | Some (selected, selectedData) \<Rightarrow>
          (let (blues, reds) =
                 colourMergeSet engine dagMap [] [] (mergeSetOf engine dagMap selected blockParents)
           in Some (Stage dagMap blockHash
                \<lparr> blueScore = blueScore selectedData + of_nat (length blues),
                  blueWork = blueWork selectedData + sum_list (map (work engine) blues),
                  selectedParent = Some selected,
                  mergeSetBlues = blues, mergeSetReds = reds,
                  bluesAnticoneSizes = anticoneSizes engine dagMap blues \<rparr>)))"

text \<open>
  The loop of the test over the rows of a test DAG: it records the parents of the block, runs
  \<^verbatim>\<open>GHOSTDAG\<close> on it and stops at the first error.
\<close>

fun runTest ::
  "ghostdagEngine \<Rightarrow> testGhostdagData list \<Rightarrow> (hash \<rightharpoonup> hash list) \<Rightarrow> GHOSTDAGDataStore \<Rightarrow>
   GHOSTDAGDataStore option"
where
  "runTest engine [] parentsMap dagMap = Some dagMap"
| "runTest engine (row # rows) parentsMap dagMap =
     (case GHOSTDAG engine (parentsMap(hash row \<mapsto> parents row)) dagMap (hash row) of
        None \<Rightarrow> None
      | Some dagMap' \<Rightarrow> runTest engine rows (parentsMap(hash row \<mapsto> parents row)) dagMap')"

text \<open>
  The invariant of section 3 on a store: the blue score of every block that has a selected
  parent is the blue score of that parent plus the number of its merge-set blues.
\<close>

definition blueScoreInvariant :: "GHOSTDAGDataStore \<Rightarrow> bool" where
  "blueScoreInvariant dagMap =
     (\<forall>h d. dagMap h = Some d \<longrightarrow>
        (case selectedParent d of
           None \<Rightarrow> True
         | Some sp \<Rightarrow>
             (case dagMap sp of
                None \<Rightarrow> False
              | Some spData \<Rightarrow>
                  blueScore d = blueScore spData + of_nat (length (mergeSetBlues d)))))"

text \<open>
  The engine on a chain, where each block has one parent: the merge set is the selected
  parent alone, which is blue; every block has the work 1.
\<close>

definition chainEngine :: ghostdagEngine where
  "chainEngine =
     \<lparr> mergeSetOf = (\<lambda>dagMap selected blockParents. [selected]),
       keepsKCluster = (\<lambda>dagMap blues candidate. True),
       anticoneSizes = (\<lambda>dagMap blues. Map.empty),
       work = (\<lambda>h. 1) \<rparr>"

(*DEFS-END*)

section \<open>Properties of the block locator\<close>

lemma Hash_chainNode: "Hash (chainNode c i) = i"
  by (cases i) simp_all

lemma chainNode_unfold:
  "0 < i \<Longrightarrow> chainNode c i = BlockNode i (c + of_nat i) (Some (chainNode c (i - 1)))"
  by (cases i) simp_all

lemma chainStore_wf: "\<forall>h n. chainStore c k h = Some n \<longrightarrow> Hash n = h"
  by (auto simp: chainStore_def Hash_chainNode split: if_splits)

lemma findFirstKnown_split:
  "findFirstKnown store xs i =
     (case dropWhile (unknownLocally store) xs of
        [] \<Rightarrow> None
      | h # _ \<Rightarrow> Some (the (store h), i + int (length (takeWhile (unknownLocally store) xs)) - 1))"
proof (induction xs arbitrary: i)
  case Nil
  show ?case by simp
next
  case (Cons a xs)
  show ?case
  proof (cases "store a")
    case None
    then have u: "unknownLocally store a" by (simp add: unknownLocally_def LookupNode_def)
    have step: "findFirstKnown store (a # xs) i = findFirstKnown store xs (i + 1)"
      using None by (simp add: LookupNode_def)
    have dw: "dropWhile (unknownLocally store) (a # xs) = dropWhile (unknownLocally store) xs"
      and tw: "takeWhile (unknownLocally store) (a # xs) = a # takeWhile (unknownLocally store) xs"
      using u by simp_all
    show ?thesis
      unfolding step dw tw Cons.IH
      by (simp cong: list.case_cong)
  next
    case (Some n)
    then have u: "\<not> unknownLocally store a" by (simp add: unknownLocally_def LookupNode_def)
    show ?thesis
      using Some u by (simp add: LookupNode_def)
  qed
qed

lemma last_takeWhile_nth:
  "takeWhile P xs \<noteq> [] \<Longrightarrow> xs ! (length (takeWhile P xs) - 1) = last (takeWhile P xs)"
  by (metis diff_less last_conv_nth length_greater_0_conv takeWhile_nth zero_less_one)

text \<open>
  C5, as the code has it. In a store where every node is filed under its own hash and that
  knows genesis, \<^verbatim>\<open>FindNextLocatorBoundaries\<close> returns as \<^verbatim>\<open>highHash\<close> the last entry of
  the run of unknown entries that opens the locator (the entry immediately before the first
  known one; \<^verbatim>\<open>nil\<close> when the first entry is known or the locator is empty) and as
  \<^verbatim>\<open>lowHash\<close> the first known entry (genesis when every entry is unknown).
\<close>

theorem FindNextLocatorBoundaries_amended:
  assumes wf: "\<forall>h n. store h = Some n \<longrightarrow> Hash n = h"
    and gen: "store genesisHash \<noteq> None"
  shows "FindNextLocatorBoundaries store genesisHash locator =
    Some ((case takeWhile (unknownLocally store) locator of [] \<Rightarrow> None | u # us \<Rightarrow> Some (last (u # us))),
          (case dropWhile (unknownLocally store) locator of [] \<Rightarrow> genesisHash | h # _ \<Rightarrow> h))"
proof (cases "dropWhile (unknownLocally store) locator")
  case Nil
  then have tw: "takeWhile (unknownLocally store) locator = locator"
    by (metis append_Nil2 takeWhile_dropWhile_id)
  obtain g where g: "store genesisHash = Some g" using gen by auto
  with wf have hg: "Hash g = genesisHash" by simp
  show ?thesis
  proof (cases locator)
    case Nil
    then show ?thesis
      by (simp add: FindNextLocatorBoundaries_def LookupNode_def g hg)
  next
    case (Cons a as)
    with Nil tw show ?thesis
      using last_conv_nth [of locator]
      by (simp add: FindNextLocatorBoundaries_def findFirstKnown_split LookupNode_def g hg
          nat_diff_distrib')
  qed
next
  case (Cons h hs)
  then have "\<not> unknownLocally store h"
    by (metis dropWhile_eq_Cons_conv)
  then obtain n where n: "store h = Some n"
    by (auto simp: unknownLocally_def LookupNode_def)
  with wf have hn: "Hash n = h" by simp
  show ?thesis
  proof (cases "takeWhile (unknownLocally store) locator")
    case Nil
    with Cons show ?thesis
      by (simp add: FindNextLocatorBoundaries_def findFirstKnown_split n hn)
  next
    case (Cons u us)
    then have ne: "takeWhile (unknownLocally store) locator \<noteq> []" by simp
    from last_takeWhile_nth [OF ne] Cons \<open>dropWhile (unknownLocally store) locator = h # hs\<close>
    show ?thesis
      by (simp add: FindNextLocatorBoundaries_def findFirstKnown_split n hn nat_diff_distrib')
  qed
qed

text \<open>
  The theorem at the store of blocks \<open>0..5\<close> (every node is filed under its own hash, by
  \<open>chainStore_wf\<close>) and the locator \<open>[9, 7, 3]\<close>: 9 and 7 are unknown, 3 is known.
\<close>

theorem FindNextLocatorBoundaries_amended_witness:
  "chainStore 0 5 0 \<noteq> None \<and>
   FindNextLocatorBoundaries (chainStore 0 5) 0 [9, 7, 3] = Some (Some 7, 3)"
proof -
  have g: "chainStore 0 5 0 \<noteq> None" by (simp add: chainStore_def)
  show ?thesis
    using FindNextLocatorBoundaries_amended [OF chainStore_wf g, of "[9, 7, 3]"] g
    by (simp add: unknownLocally_def LookupNode_def chainStore_def)
qed

text \<open>
  C5 as stated fails there: the first unknown entry of \<open>[9, 7, 3]\<close> is 9, and the high hash
  returned is 7, the unknown entry next to the first known one.
\<close>

theorem FindNextLocatorBoundaries_counterexample:
  "FindNextLocatorBoundaries (chainStore 0 5) 0 [9, 7, 3] = Some (Some 7, 3) \<and>
   List.find (unknownLocally (chainStore 0 5)) [9, 7, 3] = Some 9"
  by (simp add: FindNextLocatorBoundaries_def unknownLocally_def LookupNode_def chainStore_def
      chainNode_unfold)

lemma blockLocatorLoop_prefix:
  assumes "blockLocatorLoop lowNode node step locator = Some r"
  shows "\<forall>l. r = Inr l \<longrightarrow> prefix locator l"
proof (rule blockLocatorLoop.raw_induct
    [where P = "\<lambda>lowNode node step locator r. \<forall>l. r = Inr l \<longrightarrow> prefix locator l", OF _ assms])
  fix f :: "blocknode \<Rightarrow> blocknode option \<Rightarrow> 64 word \<Rightarrow> hash list \<Rightarrow> (error + hash list) option"
  fix lowNode node step locator r
  assume IH: "\<And>low nd st loc y. f low nd st loc = Some y \<Longrightarrow> \<forall>l. y = Inr l \<longrightarrow> prefix loc l"
  assume eq: "(case node of
        None \<Rightarrow> Some (Inr locator)
      | Some n \<Rightarrow>
          if BlueScore n \<le> BlueScore lowNode then
            (if n \<noteq> lowNode
             then Some (Inl (Errorf ''highNode and lowNode are not in the same selected parent chain.''))
             else Some (Inr (locator @ [Hash n])))
          else
            f lowNode
              (SelectedAncestor n
                 (if BlueScore n - step < BlueScore lowNode then BlueScore lowNode
                  else BlueScore n - step))
              (step * 2)
              (locator @ [Hash n])) = Some r"
  show "\<forall>l. r = Inr l \<longrightarrow> prefix locator l"
  proof (cases node)
    case None
    with eq show ?thesis by auto
  next
    case (Some n)
    show ?thesis
    proof (cases "BlueScore n \<le> BlueScore lowNode")
      case True
      with Some eq show ?thesis by (cases "n = lowNode") auto
    next
      case False
      with Some eq have
        "f lowNode (SelectedAncestor n
                 (if BlueScore n - step < BlueScore lowNode then BlueScore lowNode
                  else BlueScore n - step)) (step * 2) (locator @ [Hash n]) = Some r"
        by simp
      from IH [OF this] show ?thesis
        by (auto dest: append_prefixD)
    qed
  qed
qed

lemmas word_compare = word_le_nat_alt word_less_nat_alt

lemma blockLocator_17_first_step:
  "blockLocator (chainNode 0 17) (chainNode 0 0) =
   blockLocatorLoop (chainNode 0 0) (Some (chainNode 0 15)) 2 [16]"
proof -
  have "blockLocator (chainNode 0 17) (chainNode 0 0) =
        blockLocatorLoop (chainNode 0 0) (Some (chainNode 0 16)) 1 []"
    by (simp add: blockLocator_def chainNode_unfold)
  also have "\<dots> = blockLocatorLoop (chainNode 0 0) (Some (chainNode 0 15)) 2 [16]"
    by (subst blockLocatorLoop.simps) (simp add: chainNode_unfold word_compare)
  finally show ?thesis .
qed

text \<open>
  The loop is the loop cut after \<open>k\<close> iterations, carried on from the variables it has then.
\<close>

lemma blockLocatorLoop_steps:
  "blockLocatorLoop lowNode node step locator =
     (case blockLocatorSteps k lowNode node step locator of
        Inl r \<Rightarrow> Some r
      | Inr (node', step', locator') \<Rightarrow> blockLocatorLoop lowNode node' step' locator')"
proof (induction k arbitrary: node step locator)
  case 0
  show ?case by simp
next
  case (Suc k)
  show ?case
  proof (cases node)
    case None
    then show ?thesis by (subst blockLocatorLoop.simps) simp
  next
    case (Some n)
    show ?thesis
    proof (cases "BlueScore n \<le> BlueScore lowNode")
      case True
      with Some show ?thesis by (subst blockLocatorLoop.simps) simp
    next
      case False
      let ?next = "SelectedAncestor n
                 (if BlueScore n - step < BlueScore lowNode then BlueScore lowNode
                  else BlueScore n - step)"
      have "blockLocatorLoop lowNode node step locator =
            blockLocatorLoop lowNode ?next (step * 2) (locator @ [Hash n])"
        using Some False by (subst blockLocatorLoop.simps) simp
      also have "\<dots> =
            (case blockLocatorSteps k lowNode ?next (step * 2) (locator @ [Hash n]) of
               Inl r \<Rightarrow> Some r
             | Inr (node', step', locator') \<Rightarrow> blockLocatorLoop lowNode node' step' locator')"
        by (rule Suc.IH)
      also have "blockLocatorSteps k lowNode ?next (step * 2) (locator @ [Hash n]) =
            blockLocatorSteps (Suc k) lowNode node step locator"
        using Some False by simp
      finally show ?thesis .
    qed
  qed
qed

lemma blockLocatorSteps_unfold:
  "0 < k \<Longrightarrow>
   blockLocatorSteps k lowNode node step locator =
     (case node of
        None \<Rightarrow> Inl (Inr locator)
      | Some n \<Rightarrow>
          if BlueScore n \<le> BlueScore lowNode then
            (if n \<noteq> lowNode
             then Inl (Inl (Errorf ''highNode and lowNode are not in the same selected parent chain.''))
             else Inl (Inr (locator @ [Hash n])))
          else
            blockLocatorSteps (k - 1) lowNode
              (SelectedAncestor n
                 (if BlueScore n - step < BlueScore lowNode then BlueScore lowNode
                  else BlueScore n - step))
              (step * 2)
              (locator @ [Hash n]))"
  by (cases k; cases node) simp_all

lemma blockLocatorSteps_17_four:
  "blockLocatorSteps 4 (chainNode 0 0) (SelectedParent (chainNode 0 17)) 1 [] =
     Inr (Some (chainNode 0 1), 16, [16, 15, 13, 9])"
  by (simp add: blockLocatorSteps_unfold chainNode_unfold word_compare)

lemma blockLocatorSteps_17_five:
  "\<exists>node. blockLocatorSteps 5 (chainNode 0 0) (SelectedParent (chainNode 0 17)) 1 [] =
     Inr (node, 32, [16, 15, 13, 9, 1])"
  by (simp add: blockLocatorSteps_unfold chainNode_unfold word_compare)

lemma blockLocatorLoop_at_lowNode:
  "blockLocatorLoop lowNode (Some lowNode) step locator = Some (Inr (locator @ [Hash lowNode]))"
  by (subst blockLocatorLoop.simps) simp

lemma blockLocator_16:
  "blockLocator (chainNode 0 16) (chainNode 0 0) = Some (Inr [15, 14, 12, 8, 0])"
  by (simp add: blockLocator_def chainNode_unfold blockLocatorLoop.simps word_compare)

lemma blockLocatorLoop_mismatch:
  "BlueScore n \<le> BlueScore lowNode \<Longrightarrow> n \<noteq> lowNode \<Longrightarrow>
   blockLocatorLoop lowNode (Some n) step locator =
   Some (Inl (Errorf ''highNode and lowNode are not in the same selected parent chain.''))"
  by (subst blockLocatorLoop.simps) simp

text \<open>
  C4, as the code has it. On the selected-parent chain \<open>0..20\<close> (blue score of block \<open>i\<close> is
  \<open>i\<close>), \<^verbatim>\<open>blockLocator\<close> with high = 17 and low = genesis starts at the selected parent of
  high, block 16, and never emits 17. With the step 1, 2, 4, 8 its first four iterations emit
  16, 15, 13, 9 and leave it at block 1 with step 16; the fifth iteration emits 1, so the first
  five hashes emitted are 16, 15, 13, 9, 1. These are the variables of \<^verbatim>\<open>blockLocator\<close> itself:
  for every \<open>k\<close>, \<^verbatim>\<open>blockLocator\<close> is its loop cut after \<open>k\<close> iterations and carried on from
  there. When the walk arrives at \<^verbatim>\<open>lowNode\<close> it appends the low hash and returns, so that
  the locator ends with the low hash; with high = 16 it returns \<open>[15, 14, 12, 8, 0]\<close>. Whatever
  the loop returns extends what it has emitted so far, and when it arrives at a node other than
  \<^verbatim>\<open>lowNode\<close> whose blue score is at most that of \<^verbatim>\<open>lowNode\<close>, it returns the error.
\<close>

theorem blockLocator_amended:
  "blockLocatorSteps 4 (chainNode 0 0) (SelectedParent (chainNode 0 17)) 1 [] =
     Inr (Some (chainNode 0 1), 16, [16, 15, 13, 9]) \<and>
   (\<exists>node'. blockLocatorSteps 5 (chainNode 0 0) (SelectedParent (chainNode 0 17)) 1 [] =
     Inr (node', 32, [16, 15, 13, 9, 1])) \<and>
   blockLocator highNode lowNode =
     (case blockLocatorSteps k lowNode (SelectedParent highNode) 1 [] of
        Inl r \<Rightarrow> Some r
      | Inr (node', step', locator') \<Rightarrow> blockLocatorLoop lowNode node' step' locator') \<and>
   blockLocatorLoop lowNode (Some lowNode) step locator =
     Some (Inr (locator @ [Hash lowNode])) \<and>
   blockLocator (chainNode 0 16) (chainNode 0 0) = Some (Inr [15, 14, 12, 8, 0]) \<and>
   (\<forall>l. blockLocatorLoop lowNode node step locator = Some (Inr l) \<longrightarrow> prefix locator l) \<and>
   (BlueScore n \<le> BlueScore lowNode \<and> n \<noteq> lowNode \<longrightarrow>
      blockLocatorLoop lowNode (Some n) step locator =
      Some (Inl (Errorf ''highNode and lowNode are not in the same selected parent chain.'')))"
proof -
  have "blockLocator highNode lowNode =
     (case blockLocatorSteps k lowNode (SelectedParent highNode) 1 [] of
        Inl r \<Rightarrow> Some r
      | Inr (node', step', locator') \<Rightarrow> blockLocatorLoop lowNode node' step' locator')"
    unfolding blockLocator_def by (rule blockLocatorLoop_steps)
  then show ?thesis
    using blockLocatorSteps_17_four blockLocatorSteps_17_five blockLocatorLoop_at_lowNode
      blockLocator_16 blockLocatorLoop_prefix blockLocatorLoop_mismatch
    by blast
qed

text \<open>
  The theorem at a run that returns a locator (high = 4, low = genesis: \<open>[3, 2, 0]\<close>) and at a
  low node that is not on the chain: a block 99 of blue score 5 against the chain block 5.
\<close>

theorem blockLocator_amended_witness:
  "blockLocatorLoop (chainNode 0 0) (Some (chainNode 0 3)) 1 [] = Some (Inr [3, 2, 0]) \<and>
   prefix [] [3, 2, 0::hash] \<and>
   BlueScore (chainNode 0 5) \<le> BlueScore (BlockNode 99 5 None) \<and>
   chainNode 0 5 \<noteq> BlockNode 99 5 None \<and>
   blockLocatorLoop (BlockNode 99 5 None) (Some (chainNode 0 5)) 8 [9, 8, 6] =
     Some (Inl (Errorf ''highNode and lowNode are not in the same selected parent chain.''))"
proof -
  have run: "blockLocatorLoop (chainNode 0 0) (Some (chainNode 0 3)) 1 [] = Some (Inr [3, 2, 0])"
    by (simp add: chainNode_unfold blockLocatorLoop.simps word_compare)
  have le: "BlueScore (chainNode 0 5) \<le> BlueScore (BlockNode 99 5 None)"
    and ne: "chainNode 0 5 \<noteq> BlockNode 99 5 None"
    by (simp_all add: chainNode_unfold)
  from blockLocator_amended
    [where lowNode = "chainNode 0 0" and node = "Some (chainNode 0 3)" and step = 1
       and locator = "[]"]
  have "prefix [] [3, 2, 0::hash]" using run by blast
  moreover
  from blockLocator_amended
    [where lowNode = "BlockNode 99 5 None" and step = 8 and locator = "[9, 8, 6]"
       and n = "chainNode 0 5"]
  have "blockLocatorLoop (BlockNode 99 5 None) (Some (chainNode 0 5)) 8 [9, 8, 6] =
     Some (Inl (Errorf ''highNode and lowNode are not in the same selected parent chain.''))"
    using le ne by blast
  ultimately show ?thesis using run le ne by blast
qed

text \<open>
  C4 as stated fails on that chain: the hashes emitted are 16, 15, 13, 9 after four
  iterations, which is no beginning of \<open>[17, 16, 14, 11, 7, 2, 0]\<close>, and no run returns that
  sequence.
\<close>

theorem blockLocator_counterexample:
  "blockLocatorSteps 4 (chainNode 0 0) (SelectedParent (chainNode 0 17)) 1 [] =
     Inr (Some (chainNode 0 1), 16, [16, 15, 13, 9]) \<and>
   \<not> prefix [16, 15, 13, 9] [17, 16, 14, 11, 7, 2, 0::hash] \<and>
   blockLocator (chainNode 0 17) (chainNode 0 0) \<noteq> Some (Inr [17, 16, 14, 11, 7, 2, 0])"
proof -
  have "blockLocator (chainNode 0 17) (chainNode 0 0) \<noteq> Some (Inr [17, 16, 14, 11, 7, 2, 0])"
  proof
    assume "blockLocator (chainNode 0 17) (chainNode 0 0) = Some (Inr [17, 16, 14, 11, 7, 2, 0])"
    then have "blockLocatorLoop (chainNode 0 0) (Some (chainNode 0 15)) 2 [16] =
       Some (Inr [17, 16, 14, 11, 7, 2, 0])"
      unfolding blockLocator_17_first_step .
    from blockLocatorLoop_prefix [OF this] show False by simp
  qed
  moreover have "\<not> prefix [16, 15, 13, 9] [17, 16, 14, 11, 7, 2, 0::hash]"
    by simp
  ultimately show ?thesis using blockLocatorSteps_17_four by blast
qed

section \<open>Properties of the signature hash\<close>

lemma calcSignatureHash_index_error:
  "hashType AND sigHashMask = SigHashSingle \<Longrightarrow> idx \<ge> int (length (Outputs tx)) \<Longrightarrow>
   calcSignatureHash ops hf store prev ver hashType tx idx =
     (Some (Inl (ScriptError ErrInvalidSigHashSingleIndex)), store)"
  by (simp add: calcSignatureHash_def)

lemma calcSignatureHash_no_index_error:
  "\<not> (hashType AND sigHashMask = SigHashSingle \<and> idx \<ge> int (length (Outputs tx))) \<Longrightarrow>
   fst (calcSignatureHash ops hf store prev ver hashType tx idx) \<noteq>
     Some (Inl (ScriptError ErrInvalidSigHashSingleIndex))"
  unfolding calcSignatureHash_def Let_def
  by (simp split: prod.splits option.splits if_splits)

text \<open>
  C6. With a hash type whose masked low five bits are \<^verbatim>\<open>SigHashSingle\<close>,
  \<^verbatim>\<open>calcSignatureHash\<close> returns \<^verbatim>\<open>ErrInvalidSigHashSingleIndex\<close> exactly when \<^verbatim>\<open>idx\<close> is at
  least the number of outputs of the transaction; so does \<^verbatim>\<open>CalcSignatureHash\<close>, once the
  script it is given has a known version and parses.
\<close>

theorem calcSignatureHash_SigHashSingle_index:
  assumes "hashType AND sigHashMask = SigHashSingle"
  shows "(fst (calcSignatureHash ops hf store prev ver hashType tx idx) =
            Some (Inl (ScriptError ErrInvalidSigHashSingleIndex))
          \<longleftrightarrow> idx \<ge> int (length (Outputs tx))) \<and>
         (Version script \<le> maxVersion \<and> parseScript ops (Script script) = Some (parsed, None) \<longrightarrow>
            (fst (CalcSignatureHash ops hf maxVersion store script hashType tx idx) =
               Some (Inl (ScriptError ErrInvalidSigHashSingleIndex))
             \<longleftrightarrow> idx \<ge> int (length (Outputs tx))))"
proof -
  have inner: "\<And>prev ver. fst (calcSignatureHash ops hf store prev ver hashType tx idx) =
            Some (Inl (ScriptError ErrInvalidSigHashSingleIndex))
          \<longleftrightarrow> idx \<ge> int (length (Outputs tx))"
    using assms calcSignatureHash_index_error calcSignatureHash_no_index_error
    by (metis fst_conv)
  show ?thesis
    by (auto simp: inner CalcSignatureHash_def not_less [symmetric])
qed

text \<open>
  The theorem at the transaction with 3 inputs and 2 outputs, the hash type
  \<^verbatim>\<open>SigHashSingle\<close> and \<^verbatim>\<open>idx = 2\<close>: the error is returned, by either function (the script is
  the one-opcode script \<^verbatim>\<open>OP_1\<close>).
\<close>

theorem calcSignatureHash_SigHashSingle_index_witness:
  "SigHashSingle AND sigHashMask = SigHashSingle \<and>
   length (Inputs exampleTx) = 3 \<and> length (Outputs exampleTx) = 2 \<and>
   fst (calcSignatureHash stdOps exampleSigningHash exampleStore [] 0 SigHashSingle exampleTx 2) =
     Some (Inl (ScriptError ErrInvalidSigHashSingleIndex)) \<and>
   fst (CalcSignatureHash stdOps exampleSigningHash 0 exampleStore \<lparr> Script = [0x51], Version = 0 \<rparr>
          SigHashSingle exampleTx 2) =
     Some (Inl (ScriptError ErrInvalidSigHashSingleIndex))"
proof -
  have m: "SigHashSingle AND sigHashMask = SigHashSingle"
    by (simp add: SigHashSingle_def sigHashMask_def)
  have p: "parseScript stdOps (Script \<lparr> Script = [0x51], Version = 0 \<rparr>) =
      Some ([ParsedOpcode (Opcode 0x51 1) []], None)"
    by (simp add: parseScript_def stdOps_def stdOpcodeArray_def withPop_def word_compare)
  from calcSignatureHash_SigHashSingle_index [OF m, of stdOps exampleSigningHash exampleStore "[]" 0 exampleTx 2
      "\<lparr> Script = [0x51], Version = 0 \<rparr>" 0 "[ParsedOpcode (Opcode 0x51 1) []]"] p m
  show ?thesis
    by (simp add: exampleTx_def)
qed

text \<open>
  C10 at the same transaction with \<^verbatim>\<open>SigHashSingle\<close> and \<^verbatim>\<open>idx = 1\<close>: the call returns a
  hash, and afterwards the script public key of output 0 of the transaction that was
  passed in, which was the script \<open>[0x51]\<close>, is empty.
\<close>

theorem calcSignatureHash_overwrites_output_script:
  "exampleStore (ScriptPublicKeyRef (Outputs exampleTx ! 0)) = Some \<lparr> Script = [0x51], Version = 0 \<rparr> \<and>
   (\<exists>h. fst (calcSignatureHash stdOps exampleSigningHash exampleStore [] 0 SigHashSingle exampleTx 1) = Some (Inr h)) \<and>
   snd (calcSignatureHash stdOps exampleSigningHash exampleStore [] 0 SigHashSingle exampleTx 1)
     (ScriptPublicKeyRef (Outputs exampleTx ! 0)) = Some \<lparr> Script = [], Version = 0 \<rparr>"
  by (simp add: calcSignatureHash_def exampleTx_def exampleStore_def shallowCopyTx_def
      SigHashSingle_def SigHashNone_def SigHashAnyOneCanPay_def sigHashMask_def Let_def)

lemma calcSignatureHash_store_unchanged:
  "hashType AND sigHashMask \<noteq> SigHashSingle \<or> idx \<le> 0 \<Longrightarrow>
   snd (calcSignatureHash ops hf store prev ver hashType tx idx) = store"
  unfolding calcSignatureHash_def Let_def
  by (auto split: prod.splits option.splits if_splits)

section \<open>Properties of the signature operation count\<close>

lemma sigOpStep_contribution:
  "sigOpStep ops pops precise i nSigs =
   nSigs + sigOpContribution ops precise (if i = 0 then None else Some (pops ! (i - 1))) (pops ! i)"
  by (simp add: sigOpStep_def sigOpContribution_def MaxPubKeysPerMultiSig_def Let_def)

lemma fold_upt_add:
  fixes f :: "nat \<Rightarrow> int \<Rightarrow> int"
  assumes "\<And>i acc. f i acc = acc + g i"
  shows "fold f [0..<n] a = a + (\<Sum>i<n. g i)"
proof (induction n)
  case 0
  show ?case by simp
next
  case (Suc n)
  have "fold f [0..<Suc n] a = f n (fold f [0..<n] a)"
    by simp
  also have "\<dots> = fold f [0..<n] a + g n"
    by (rule assms)
  finally show ?case
    by (simp add: Suc.IH)
qed

lemma fold_sigOpStep:
  "fold (sigOpStep ops pops precise) [0..<n] a =
   a + (\<Sum>i<n. sigOpContribution ops precise (if i = 0 then None else Some (pops ! (i - 1))) (pops ! i))"
  by (rule fold_upt_add) (rule sigOpStep_contribution)

text \<open>
  C8, as the code has it: the count is the sum, over the parsed opcodes, of 1 for each
  check-sig, of the number of the immediately preceding opcode for each check-multisig that,
  in precise mode, follows one of \<^verbatim>\<open>OP_1\<close> .. \<^verbatim>\<open>OP_16\<close>, of 20 for every other
  check-multisig, and of 0 for every other opcode.
\<close>

theorem getSigOpCount_sum:
  "getSigOpCount ops pops precise =
   (\<Sum>i<length pops.
      sigOpContribution ops precise (if i = 0 then None else Some (pops ! (i - 1))) (pops ! i))"
  by (simp add: getSigOpCount_def fold_sigOpStep)

text \<open>
  C8 as stated fails on the script \<^verbatim>\<open>OP_0 OP_CHECKMULTISIG\<close> in precise mode: \<^verbatim>\<open>OP_0\<close> is a
  small integer, of value 0, and the count is 20.
\<close>

theorem getSigOpCount_counterexample:
  "parseScript stdOps [0x00, 0xae] =
     Some ([ParsedOpcode (Opcode 0x00 1) [], ParsedOpcode (Opcode 0xae 1) []], None) \<and>
   isSmallInt stdOps (Opcode 0x00 1) \<and>
   asSmallInt stdOps (Opcode 0x00 1) = 0 \<and>
   getSigOpCount stdOps [ParsedOpcode (Opcode 0x00 1) [], ParsedOpcode (Opcode 0xae 1) []] True = 20"
  by (simp add: parseScript_def stdOps_def stdOpcodeArray_def withPop_def word_compare
      isSmallInt_def asSmallInt_def getSigOpCount_def sigOpStep_def MaxPubKeysPerMultiSig_def
      upt_rec [of 0] upt_rec [of 1] upt_rec [of "Suc 0"])

lemma nth_last: "xs \<noteq> [] \<Longrightarrow> xs ! (length xs - 1) = last xs"
  by (simp add: last_conv_nth)

text \<open>
  C7, as the code has it. For a pay-to-script-hash input (\<^verbatim>\<open>isP2SH\<close> and a script public key
  whose parsed opcodes are the pay-to-script-hash pattern), \<^verbatim>\<open>GetPreciseSigOpCount\<close> counts
  0 when the signature script fails to parse, is not push-only, is empty or ends in an
  opcode without data; otherwise it parses the redeem script, the data of the last opcode
  of the signature script, and counts in precise mode the opcodes that were parsed, whether
  or not that parse ended in an error.
\<close>

theorem GetPreciseSigOpCount_P2SH:
  assumes "isP2SH"
    and "parseScript ops (Script scriptPubKey) = Some (pops, perr)"
    and "isScriptHash ops pops"
  shows "GetPreciseSigOpCount ops scriptSig scriptPubKey isP2SH =
     (case parseScript ops scriptSig of
        None \<Rightarrow> None
      | Some (sigPops, Some err) \<Rightarrow> Some 0
      | Some (sigPops, None) \<Rightarrow>
          if \<not> isPushOnly ops sigPops \<or> sigPops = [] \<or> data (last sigPops) = [] then Some 0
          else map_option (\<lambda>(shPops, shErr). getSigOpCount ops shPops True)
                 (parseScript ops (data (last sigPops))))"
proof (cases "parseScript ops scriptSig")
  case None
  with assms show ?thesis
    by (simp add: GetPreciseSigOpCount_def)
next
  case (Some r)
  obtain sigPops sigErr where r: "r = (sigPops, sigErr)"
    by (cases r)
  show ?thesis
  proof (cases sigErr)
    case (Some err)
    with assms \<open>parseScript ops scriptSig = Some r\<close> r show ?thesis
      by (simp add: GetPreciseSigOpCount_def)
  next
    case None
    note sig = \<open>parseScript ops scriptSig = Some r\<close> [unfolded r None]
    show ?thesis
    proof (cases "sigPops = []")
      case True
      with assms sig show ?thesis
        by (simp add: GetPreciseSigOpCount_def)
    next
      case False
      then have l: "sigPops ! (length sigPops - 1) = last sigPops"
        by (rule nth_last)
      from assms sig False show ?thesis
        by (cases "parseScript ops (data (last sigPops))")
          (auto simp: GetPreciseSigOpCount_def Let_def l simp del: One_nat_def)
    qed
  qed
qed

lemmas stdParse = parseScript_def stdOps_def stdOpcodeArray_def withPop_def word_compare

lemma parse_p2shScript:
  "parseScript stdOps (Script (p2shScript (replicate 20 0))) =
     Some ([ParsedOpcode (Opcode 0xa9 1) [], ParsedOpcode (Opcode 0x14 21) (replicate 20 0),
            ParsedOpcode (Opcode 0x87 1) []], None)"
  by (simp add: stdParse p2shScript_def)

lemma isScriptHash_p2sh:
  "isScriptHash stdOps [ParsedOpcode (Opcode 0xa9 1) [], ParsedOpcode (Opcode 0x14 21) (replicate 20 0),
            ParsedOpcode (Opcode 0x87 1) []]"
  by (simp add: isScriptHash_def stdOps_def)

text \<open>
  The theorem at a signature script that pushes the redeem script
  \<^verbatim>\<open>OP_2 OP_CHECKMULTISIG\<close>: the count is 2.
\<close>

theorem GetPreciseSigOpCount_P2SH_witness:
  "GetPreciseSigOpCount stdOps [0x02, 0x52, 0xae] (p2shScript (replicate 20 0)) True = Some 2"
proof -
  have sig: "parseScript stdOps [0x02, 0x52, 0xae] =
      Some ([ParsedOpcode (Opcode 0x02 3) [0x52, 0xae]], None)"
    by (simp add: stdParse)
  have sh: "parseScript stdOps [0x52, 0xae] =
      Some ([ParsedOpcode (Opcode 0x52 1) [], ParsedOpcode (Opcode 0xae 1) []], None)"
    by (simp add: stdParse)
  have cnt: "getSigOpCount stdOps [ParsedOpcode (Opcode 0x52 1) [], ParsedOpcode (Opcode 0xae 1) []] True = 2"
    by (simp add: getSigOpCount_def sigOpStep_def stdOps_def asSmallInt_def word_compare
        MaxPubKeysPerMultiSig_def upt_rec [of 0] upt_rec [of 1] upt_rec [of "Suc 0"])
  have po: "isPushOnly stdOps [ParsedOpcode (Opcode 0x02 3) [0x52, 0xae]]"
    by (simp add: stdOps_def word_compare)
  show ?thesis
    using GetPreciseSigOpCount_P2SH [OF TrueI parse_p2shScript isScriptHash_p2sh, of "[0x02, 0x52, 0xae]"]
    by (simp add: sig sh cnt po del: isPushOnly.simps)
qed

text \<open>
  C7 as stated fails when the redeem script is malformed: the signature script pushes the
  two bytes \<^verbatim>\<open>OP_CHECKSIG OP_DATA_2\<close>, whose parse ends in \<^verbatim>\<open>ErrMalformedPush\<close> after the
  check-sig, and the count is 1.
\<close>

theorem GetPreciseSigOpCount_counterexample:
  "parseScript stdOps [0xac, 0x02] =
     Some ([ParsedOpcode (Opcode 0xac 1) []], Some (ScriptError ErrMalformedPush)) \<and>
   GetPreciseSigOpCount stdOps [0x02, 0xac, 0x02] (p2shScript (replicate 20 0)) True = Some 1"
proof -
  have sh: "parseScript stdOps [0xac, 0x02] =
     Some ([ParsedOpcode (Opcode 0xac 1) []], Some (ScriptError ErrMalformedPush))"
    by (simp add: stdParse)
  have sig: "parseScript stdOps [0x02, 0xac, 0x02] =
      Some ([ParsedOpcode (Opcode 0x02 3) [0xac, 0x02]], None)"
    by (simp add: stdParse)
  have cnt: "getSigOpCount stdOps [ParsedOpcode (Opcode 0xac 1) []] True = 1"
    by (simp add: getSigOpCount_def sigOpStep_def stdOps_def upt_rec [of 0] upt_rec [of 1])
  have po: "isPushOnly stdOps [ParsedOpcode (Opcode 0x02 3) [0xac, 0x02]]"
    by (simp add: stdOps_def word_compare)
  have "GetPreciseSigOpCount stdOps [0x02, 0xac, 0x02] (p2shScript (replicate 20 0)) True = Some 1"
    by (simp add: GetPreciseSigOpCount_def parse_p2shScript isScriptHash_p2sh sig sh cnt po
        del: isPushOnly.simps)
  with sh show ?thesis by simp
qed

section \<open>Properties of the UTXO iterator with diff\<close>

lemma Next_base_empty:
  assumes "remaining (baseIterator r) = []"
  shows "Next r =
     (case remaining (toAddIterator r) of
        [] \<Rightarrow> Some (False, r)
      | y # ys \<Rightarrow>
          Some (True, r\<lparr>toAddIterator := (toAddIterator r)\<lparr>remaining := ys, current := Some y\<rparr>,
                        currentOutpoint := Some (fst y),
                        currentUTXOEntry := fst (snd y), currentErr := snd (snd y)\<rparr>))"
  using assms
  by (subst Next.simps)
    (auto simp: baseNext_def baseGet_def split: list.splits prod.splits)

lemma Next_base_kept:
  assumes "remaining (baseIterator r) = (outpoint, Some e, err) # xs"
    and "\<not> containsWithBlueScore (toRemove (diff r)) outpoint (BlockBlueScore e)"
  shows "Next r =
     Some (True, r\<lparr>baseIterator := (baseIterator r)\<lparr>remaining := xs,
                                                    current := Some (outpoint, Some e, err)\<rparr>,
                   currentOutpoint := Some outpoint,
                   currentUTXOEntry := Some e, currentErr := err\<rparr>)"
  using assms
  by (subst Next.simps) (simp add: baseNext_def baseGet_def)

lemma Next_base_removed:
  assumes "remaining (baseIterator r) = (outpoint, Some e, err) # xs"
    and "containsWithBlueScore (toRemove (diff r)) outpoint (BlockBlueScore e)"
  shows "Next r =
     Next (r\<lparr>baseIterator := (baseIterator r)\<lparr>remaining := xs,
                                               current := Some (outpoint, Some e, err)\<rparr>,
              currentOutpoint := Some outpoint,
              currentUTXOEntry := Some e, currentErr := err\<rparr>)"
  using assms
  by (subst Next.simps) (simp add: baseNext_def baseGet_def)

lemma yields_toAdd:
  "remaining (baseIterator r) = [] \<Longrightarrow>
   yields r = Some (map yielded (remaining (toAddIterator r)))"
proof (induction ys \<equiv> "remaining (toAddIterator r)" arbitrary: r)
  case Nil
  then show ?case
    by (subst yields.simps) (simp add: Next_base_empty)
next
  case (Cons y ys)
  let ?r' = "r\<lparr>toAddIterator := (toAddIterator r)\<lparr>remaining := ys, current := Some y\<rparr>,
                 currentOutpoint := Some (fst y),
                 currentUTXOEntry := fst (snd y), currentErr := snd (snd y)\<rparr>"
  have n: "Next r = Some (True, ?r')"
    using Cons(2) [symmetric] Cons(3) by (simp add: Next_base_empty)
  have "yields ?r' = Some (map yielded (remaining (toAddIterator ?r')))"
    by (rule Cons(1)) (simp_all add: Cons(3))
  then show ?case
    using Cons(2) [symmetric]
    by (subst yields.simps) (simp add: n Get_def yielded_def split: prod.splits)
qed

lemma yields_base:
  "\<forall>x\<in>set (remaining (baseIterator r)). fst (snd x) \<noteq> None \<Longrightarrow>
   yields r =
     Some (map yielded (filter (kept (toRemove (diff r))) (remaining (baseIterator r))) @
           map yielded (remaining (toAddIterator r)))"
proof (induction xs \<equiv> "remaining (baseIterator r)" arbitrary: r)
  case Nil
  then show ?case
    using yields_toAdd [of r] by simp
next
  case (Cons x xs)
  note rem = Cons(2) [symmetric]
  obtain outpoint entry err where x: "x = (outpoint, entry, err)"
    by (cases x)
  from Cons(3) rem x obtain e where e: "entry = Some e"
    by auto
  let ?r' = "r\<lparr>baseIterator := (baseIterator r)\<lparr>remaining := xs,
                                                   current := Some (outpoint, Some e, err)\<rparr>,
                 currentOutpoint := Some outpoint,
                 currentUTXOEntry := Some e, currentErr := err\<rparr>"
  have ih: "yields ?r' =
     Some (map yielded (filter (kept (toRemove (diff ?r'))) (remaining (baseIterator ?r'))) @
           map yielded (remaining (toAddIterator ?r')))"
    using Cons(3) rem by (intro Cons(1)) simp_all
  show ?case
  proof (cases "containsWithBlueScore (toRemove (diff r)) outpoint (BlockBlueScore e)")
    case True
    have "Next r = Next ?r'"
      using rem x e True by (intro Next_base_removed) simp_all
    then have "yields r = yields ?r'"
      by (subst yields.simps, subst (2) yields.simps) simp
    with ih rem x e True show ?thesis
      by (simp add: kept_def)
  next
    case False
    have "Next r = Some (True, ?r')"
      using rem x e False by (intro Next_base_kept) simp_all
    with ih rem x e False show ?thesis
      by (subst yields.simps) (simp add: kept_def Get_def yielded_def)
  qed
qed

text \<open>
  C9, as the code has it. Over a base iterator that is not itself an iterator with diff
  and whose results carry an entry, the iterator that \<^verbatim>\<open>IteratorWithDiff\<close> builds for the
  diff \<open>d\<close> yields first, in base order, every result of the base that \<^verbatim>\<open>toRemove\<close> does not
  have with the same block blue score, and afterwards every pair of \<^verbatim>\<open>toAdd\<close>. Over an
  iterator with diff, the two diffs are combined and the iterator is built over the base
  iterator underneath.
\<close>

theorem IteratorWithDiff_yields:
  assumes "\<forall>x\<in>set (remaining iterator). fst (snd x) \<noteq> None"
  shows "(case IteratorWithDiff WithDiff (BaseIterator iterator) (UtxoDiff d) of
            Inl err \<Rightarrow> None
          | Inr r \<Rightarrow> yields r) =
         Some (map yielded (filter (kept (toRemove d)) (remaining iterator)) @
               map (\<lambda>(outpoint, entry). (Some outpoint, Some entry, None)) (toAdd d)) \<and>
         IteratorWithDiff WithDiff (IteratorWithDiffOf iteratorWithDiff) (UtxoDiff d) =
           (case WithDiff (diff iteratorWithDiff) d of
              Inl err \<Rightarrow> Inl err
            | Inr combinedDiff \<Rightarrow>
                IteratorWithDiff WithDiff (BaseIterator (baseIterator iteratorWithDiff))
                  (UtxoDiff combinedDiff))"
proof -
  let ?r = "\<lparr> baseIterator = iterator, diff = d,
           currentOutpoint = None, currentUTXOEntry = None, currentErr = None,
           toAddIterator = collectionIterator (toAdd d) \<rparr>"
  have "yields ?r =
     Some (map yielded (filter (kept (toRemove (diff ?r))) (remaining (baseIterator ?r))) @
           map yielded (remaining (toAddIterator ?r)))"
    using assms by (intro yields_base) simp
  moreover have "map yielded (remaining (collectionIterator (toAdd d))) =
      map (\<lambda>(outpoint, entry). (Some outpoint, Some entry, None)) (toAdd d)"
    by (simp add: collectionIterator_def yielded_def split_def)
  ultimately show ?thesis
    by simp
qed

text \<open>
  The theorem at a base of two results, of which \<^verbatim>\<open>toRemove\<close> has the first with its blue
  score, and a \<^verbatim>\<open>toAdd\<close> of one pair.
\<close>

theorem IteratorWithDiff_yields_witness:
  "(case IteratorWithDiff exampleWithDiff
           (BaseIterator \<lparr> remaining = [(exampleOutpoint 1, Some (exampleEntry 5), None),
                                         (exampleOutpoint 2, Some (exampleEntry 6), None)],
                           current = None \<rparr>)
           (UtxoDiff \<lparr> toAdd = [(exampleOutpoint 3, exampleEntry 9)],
                       toRemove = [(exampleOutpoint 1, exampleEntry 5)] \<rparr>) of
      Inl err \<Rightarrow> None
    | Inr r \<Rightarrow> yields r) =
   Some [(Some (exampleOutpoint 2), Some (exampleEntry 6), None),
         (Some (exampleOutpoint 3), Some (exampleEntry 9), None)]"
  using IteratorWithDiff_yields
    [of "\<lparr> remaining = [(exampleOutpoint 1, Some (exampleEntry 5), None),
                        (exampleOutpoint 2, Some (exampleEntry 6), None)],
          current = None \<rparr>"
        exampleWithDiff
        "\<lparr> toAdd = [(exampleOutpoint 3, exampleEntry 9)],
          toRemove = [(exampleOutpoint 1, exampleEntry 5)] \<rparr>"]
  by (simp add: kept_def yielded_def containsWithBlueScore_def exampleOutpoint_def
      exampleEntry_def)

text \<open>
  C9 as stated fails when \<^verbatim>\<open>toRemove\<close> has the outpoint with another block blue score: the
  base result is yielded although its outpoint is present in \<^verbatim>\<open>toRemove\<close>.
\<close>

theorem IteratorWithDiff_counterexample:
  "map_of (toRemove \<lparr> toAdd = [], toRemove = [(exampleOutpoint 1, exampleEntry 7)] \<rparr>)
     (exampleOutpoint 1) = Some (exampleEntry 7) \<and>
   (case IteratorWithDiff exampleWithDiff
           (BaseIterator \<lparr> remaining = [(exampleOutpoint 1, Some (exampleEntry 5), None)],
                           current = None \<rparr>)
           (UtxoDiff \<lparr> toAdd = [], toRemove = [(exampleOutpoint 1, exampleEntry 7)] \<rparr>) of
      Inl err \<Rightarrow> None
    | Inr r \<Rightarrow> yields r) =
   Some [(Some (exampleOutpoint 1), Some (exampleEntry 5), None)]"
  by (simp add: yields_base kept_def yielded_def containsWithBlueScore_def collectionIterator_def
      exampleOutpoint_def exampleEntry_def)

section \<open>Properties of GHOSTDAG\<close>

text \<open>The order in which \<^verbatim>\<open>findSelectedParent\<close> compares two parents.\<close>

lemma chooseSelectedParent_max:
  "chooseSelectedParent best ps \<in> set (best # ps) \<and>
   (\<forall>q\<in>set (best # ps). \<not> betterParent q (chooseSelectedParent best ps))"
proof (induction ps arbitrary: best)
  case Nil
  show ?case by (simp add: betterParent_def)
next
  case (Cons p ps)
  let ?b = "if betterParent p best then p else best"
  from Cons.IH [of ?b]
  have mem: "chooseSelectedParent ?b ps \<in> set (?b # ps)"
    and top: "\<forall>q\<in>set (?b # ps). \<not> betterParent q (chooseSelectedParent ?b ps)"
    by blast+
  from top have b: "\<not> betterParent ?b (chooseSelectedParent ?b ps)" by simp
  have "\<not> betterParent best (chooseSelectedParent ?b ps)"
    using b by (auto simp: betterParent_def split: if_splits)
  moreover have "\<not> betterParent p (chooseSelectedParent ?b ps)"
    using b by (auto simp: betterParent_def split: if_splits)
  ultimately show ?case using mem top by (auto split: if_splits)
qed

lemma lookupParents_Some:
  "lookupParents dagMap ps = Some l \<Longrightarrow>
   map fst l = ps \<and> (\<forall>p d. (p, d) \<in> set l \<longrightarrow> dagMap p = Some d)"
  by (induction ps arbitrary: l) (auto split: option.splits)

lemma lookupParents_total:
  "\<forall>p\<in>set ps. dagMap p \<noteq> None \<Longrightarrow> \<exists>l. lookupParents dagMap ps = Some l"
  by (induction ps) auto

lemma findSelectedParent_Some:
  assumes "findSelectedParent dagMap blockParents = Some (sp, spData)"
  shows "sp \<in> set blockParents \<and> dagMap sp = Some spData \<and>
     (\<forall>p\<in>set blockParents. \<forall>d. dagMap p = Some d \<longrightarrow>
        blueWork d \<le> blueWork spData \<and> (blueWork d = blueWork spData \<longrightarrow> p \<le> sp))"
proof -
  from assms obtain x xs where l: "lookupParents dagMap blockParents = Some (x # xs)"
    and r: "chooseSelectedParent x xs = (sp, spData)"
    by (auto simp: findSelectedParent_def split: option.splits list.splits)
  from lookupParents_Some [OF l]
  have ps: "map fst (x # xs) = blockParents"
    and known: "\<forall>p d. (p, d) \<in> set (x # xs) \<longrightarrow> dagMap p = Some d"
    by blast+
  from chooseSelectedParent_max [of x xs] r
  have mem: "(sp, spData) \<in> set (x # xs)"
    and top: "\<forall>q\<in>set (x # xs). \<not> betterParent q (sp, spData)"
    by simp_all
  from mem ps have "sp \<in> set blockParents" by force
  moreover from mem known have "dagMap sp = Some spData" by force
  moreover have "blueWork d \<le> blueWork spData \<and> (blueWork d = blueWork spData \<longrightarrow> p \<le> sp)"
    if "p \<in> set blockParents" "dagMap p = Some d" for p d
  proof -
    from that(1) ps have "p \<in> fst ` set (x # xs)" by (metis list.set_map)
    then obtain d' where y: "(p, d') \<in> set (x # xs)" by force
    with known that(2) have "d' = d" by force
    with y have "(p, d) \<in> set (x # xs)" by simp
    with top have "\<not> betterParent (p, d) (sp, spData)" by blast
    then show ?thesis by (auto simp: betterParent_def)
  qed
  ultimately show ?thesis by blast
qed

lemma findSelectedParent_total:
  assumes "blockParents \<noteq> []" "\<forall>p\<in>set blockParents. dagMap p \<noteq> None"
  shows "\<exists>sp spData. findSelectedParent dagMap blockParents = Some (sp, spData)"
proof -
  from lookupParents_total [OF assms(2)] obtain l where l: "lookupParents dagMap blockParents = Some l"
    by blast
  from lookupParents_Some [OF l] assms(1) have "l \<noteq> []" by auto
  then obtain x xs where "l = x # xs" by (cases l) auto
  with l show ?thesis
    by (cases "chooseSelectedParent x xs") (simp add: findSelectedParent_def)
qed

lemmas testData =
  expectedStore_def expectedData_def testRow_def Stage_def genesisHash'_def
  genesisGHOSTDAGData_def

lemmas selectParent =
  findSelectedParent_def betterParent_def

lemma findSelectedParent_dag2_5:
  "findSelectedParent (expectedStore dag2) [2, 3, 4] = Some (4, expectedData (dag2 ! 3))"
  by (simp add: testData selectParent dag2_def)

lemma findSelectedParent_dag1:
  "map (\<lambda>row. map_option fst (findSelectedParent (expectedStore dag1) (parents row))) dag1 =
   map (\<lambda>row. Some (expectedSelectedParent row)) dag1"
  by (simp add: testData selectParent dag1_def)

lemma findSelectedParent_dag2:
  "map (\<lambda>row. map_option fst (findSelectedParent (expectedStore dag2) (parents row))) dag2 =
   map (\<lambda>row. Some (expectedSelectedParent row)) dag2"
  by (simp add: testData selectParent dag2_def)

lemma findSelectedParent_dag3:
  "map (\<lambda>row. map_option fst (findSelectedParent (expectedStore dag3) (parents row))) dag3 =
   map (\<lambda>row. Some (expectedSelectedParent row)) dag3"
  by (simp add: testData selectParent dag3_def)

lemma findSelectedParent_dag4:
  "map (\<lambda>row. map_option fst (findSelectedParent (expectedStore dag4) (parents row))) dag4 =
   map (\<lambda>row. Some (expectedSelectedParent row)) dag4"
  by (simp add: testData selectParent dag4_def)

lemma findSelectedParent_dag5:
  "map (\<lambda>row. map_option fst (findSelectedParent (expectedStore dag5) (parents row))) dag5 =
   map (\<lambda>row. Some (expectedSelectedParent row)) dag5"
  by (simp add: testData selectParent dag5_def)

lemma findSelectedParent_dag6:
  "map (\<lambda>row. map_option fst (findSelectedParent (expectedStore dag6) (parents row))) dag6 =
   map (\<lambda>row. Some (expectedSelectedParent row)) dag6"
  by (simp add: testData selectParent dag6_def)

lemma blueScoreInvariant_dag1: "blueScoreInvariant (expectedStore dag1)"
  by (auto simp: blueScoreInvariant_def testData dag1_def split: if_splits)

lemma blueScoreInvariant_dag2: "blueScoreInvariant (expectedStore dag2)"
  by (auto simp: blueScoreInvariant_def testData dag2_def split: if_splits)

lemma blueScoreInvariant_dag3: "blueScoreInvariant (expectedStore dag3)"
  by (auto simp: blueScoreInvariant_def testData dag3_def split: if_splits)

lemma blueScoreInvariant_dag4: "blueScoreInvariant (expectedStore dag4)"
  by (auto simp: blueScoreInvariant_def testData dag4_def split: if_splits)

lemma blueScoreInvariant_dag5: "blueScoreInvariant (expectedStore dag5)"
  by (auto simp: blueScoreInvariant_def testData dag5_def split: if_splits)

lemma blueScoreInvariant_dag6: "blueScoreInvariant (expectedStore dag6)"
  by (auto simp: blueScoreInvariant_def testData dag6_def split: if_splits)

lemma runTest_dag1:
  "runTest chainEngine dag1 Map.empty [genesisHash' \<mapsto> genesisGHOSTDAGData] =
   Some (expectedStore dag1)"
proof -
  have n: "Suc (Suc 0) = 2" "Suc (Suc (Suc 0)) = 3" "Suc (Suc (Suc (Suc 0))) = 4"
    by simp_all
  show ?thesis
    by (simp add: GHOSTDAG_def Parents_def chainEngine_def testData selectParent dag1_def n)
qed

lemma GHOSTDAG_step:
  assumes sel: "findSelectedParent dagMap (Parents parentsMap blockHash) = Some (sp, spData)"
    and fresh: "dagMap blockHash = None"
    and inv: "blueScoreInvariant dagMap"
  shows "\<exists>dagMap' d. GHOSTDAG engine parentsMap dagMap blockHash = Some dagMap' \<and>
     dagMap' blockHash = Some d \<and> selectedParent d = Some sp \<and> dagMap' sp = Some spData \<and>
     blueScore d = blueScore spData + of_nat (length (mergeSetBlues d)) \<and>
     blueScoreInvariant dagMap'"
proof -
  obtain blues reds where c:
    "colourMergeSet engine dagMap [] []
       (mergeSetOf engine dagMap sp (Parents parentsMap blockHash)) = (blues, reds)"
    by (cases "colourMergeSet engine dagMap [] []
       (mergeSetOf engine dagMap sp (Parents parentsMap blockHash))")
  let ?d = "\<lparr> blueScore = blueScore spData + of_nat (length blues),
              blueWork = blueWork spData + sum_list (map (work engine) blues),
              selectedParent = Some sp,
              mergeSetBlues = blues, mergeSetReds = reds,
              bluesAnticoneSizes = anticoneSizes engine dagMap blues \<rparr>"
  from findSelectedParent_Some [OF sel] have known: "dagMap sp = Some spData" by blast
  with fresh have ne: "sp \<noteq> blockHash" by auto
  have run: "GHOSTDAG engine parentsMap dagMap blockHash = Some (dagMap(blockHash \<mapsto> ?d))"
    using sel c by (simp add: GHOSTDAG_def Stage_def)
  have "blueScoreInvariant (dagMap(blockHash \<mapsto> ?d))"
    unfolding blueScoreInvariant_def
  proof (intro allI impI)
    fix h d
    assume h: "(dagMap(blockHash \<mapsto> ?d)) h = Some d"
    show "case selectedParent d of
            None \<Rightarrow> True
          | Some sp' \<Rightarrow>
              (case (dagMap(blockHash \<mapsto> ?d)) sp' of
                 None \<Rightarrow> False
               | Some spData' \<Rightarrow>
                   blueScore d = blueScore spData' + of_nat (length (mergeSetBlues d)))"
    proof (cases "h = blockHash")
      case True
      with h have "d = ?d" by simp
      then show ?thesis using known ne by simp
    next
      case False
      with h have old: "dagMap h = Some d" by simp
      show ?thesis
      proof (cases "selectedParent d")
        case None
        then show ?thesis by simp
      next
        case (Some sp')
        with inv old obtain spData' where
          "dagMap sp' = Some spData'"
          "blueScore d = blueScore spData' + of_nat (length (mergeSetBlues d))"
          unfolding blueScoreInvariant_def
          by (fastforce split: option.splits)
        moreover from this(1) fresh have "sp' \<noteq> blockHash" by auto
        ultimately show ?thesis using Some by simp
      qed
    qed
  qed
  with run known ne show ?thesis by simp
qed

text \<open>
  C1, as the test of the repository has it. Among the parents of a newly connected block
  (not empty, all with GHOSTDAG data), \<^verbatim>\<open>findSelectedParent\<close> returns a parent of maximal
  blue work, and every parent tied with it at that blue work has a hash that is not above
  its hash: the tie goes to the higher hash. On every row of the six test DAGs this is the
  selected parent that the test expects.
\<close>

theorem findSelectedParent_tie_higher_hash:
  assumes "blockParents \<noteq> []" and "\<forall>p\<in>set blockParents. dagMap p \<noteq> None"
  shows "(\<exists>sp spData. findSelectedParent dagMap blockParents = Some (sp, spData) \<and>
       sp \<in> set blockParents \<and> dagMap sp = Some spData \<and>
       (\<forall>p\<in>set blockParents. \<forall>d. dagMap p = Some d \<longrightarrow>
          blueWork d \<le> blueWork spData \<and> (blueWork d = blueWork spData \<longrightarrow> p \<le> sp))) \<and>
     map (\<lambda>row. map_option fst (findSelectedParent (expectedStore dag1) (parents row))) dag1 =
       map (\<lambda>row. Some (expectedSelectedParent row)) dag1 \<and>
     map (\<lambda>row. map_option fst (findSelectedParent (expectedStore dag2) (parents row))) dag2 =
       map (\<lambda>row. Some (expectedSelectedParent row)) dag2 \<and>
     map (\<lambda>row. map_option fst (findSelectedParent (expectedStore dag3) (parents row))) dag3 =
       map (\<lambda>row. Some (expectedSelectedParent row)) dag3 \<and>
     map (\<lambda>row. map_option fst (findSelectedParent (expectedStore dag4) (parents row))) dag4 =
       map (\<lambda>row. Some (expectedSelectedParent row)) dag4 \<and>
     map (\<lambda>row. map_option fst (findSelectedParent (expectedStore dag5) (parents row))) dag5 =
       map (\<lambda>row. Some (expectedSelectedParent row)) dag5 \<and>
     map (\<lambda>row. map_option fst (findSelectedParent (expectedStore dag6) (parents row))) dag6 =
       map (\<lambda>row. Some (expectedSelectedParent row)) dag6"
proof -
  from findSelectedParent_total [OF assms] obtain sp spData where
    r: "findSelectedParent dagMap blockParents = Some (sp, spData)"
    by blast
  from findSelectedParent_Some [OF r] r
  have "\<exists>sp spData. findSelectedParent dagMap blockParents = Some (sp, spData) \<and>
       sp \<in> set blockParents \<and> dagMap sp = Some spData \<and>
       (\<forall>p\<in>set blockParents. \<forall>d. dagMap p = Some d \<longrightarrow>
          blueWork d \<le> blueWork spData \<and> (blueWork d = blueWork spData \<longrightarrow> p \<le> sp))"
    by blast
  then show ?thesis
    using findSelectedParent_dag1 findSelectedParent_dag2 findSelectedParent_dag3
      findSelectedParent_dag4 findSelectedParent_dag5 findSelectedParent_dag6
    by blast
qed

text \<open>
  The theorem at block 5 of the second test DAG: its parents 2, 3 and 4 have data, the
  selected parent is 4, and the tied parents 2 and 3 are below it.
\<close>

theorem findSelectedParent_tie_higher_hash_witness:
  "map_option fst (findSelectedParent (expectedStore dag2) [2, 3, 4]) = Some 4 \<and>
   map_option blueWork (expectedStore dag2 2) = Some 3 \<and>
   map_option blueWork (expectedStore dag2 3) = Some 3 \<and>
   map_option blueWork (expectedStore dag2 4) = Some 3 \<and>
   (2::hash) \<le> 4 \<and> (3::hash) \<le> 4"
proof -
  have known: "\<forall>p\<in>set [2, 3, 4]. expectedStore dag2 p \<noteq> None"
    by (simp add: testData dag2_def)
  from findSelectedParent_tie_higher_hash [of "[2, 3, 4]" "expectedStore dag2", OF _ known]
  obtain sp spData where
    r: "findSelectedParent (expectedStore dag2) [2, 3, 4] = Some (sp, spData)"
    and top: "\<forall>p\<in>set [2, 3, 4]. \<forall>d. expectedStore dag2 p = Some d \<longrightarrow>
          blueWork d \<le> blueWork spData \<and> (blueWork d = blueWork spData \<longrightarrow> p \<le> sp)"
    by auto
  from r have sp: "sp = 4" and spData: "spData = expectedData (dag2 ! 3)"
    by (simp_all add: findSelectedParent_dag2_5)
  have w: "expectedStore dag2 2 = Some (expectedData (dag2 ! 1))"
    "expectedStore dag2 3 = Some (expectedData (dag2 ! 2))"
    "expectedStore dag2 4 = Some (expectedData (dag2 ! 3))"
    by (simp_all add: testData dag2_def)
  have bw: "blueWork (expectedData (dag2 ! 1)) = 3" "blueWork (expectedData (dag2 ! 2)) = 3"
    "blueWork (expectedData (dag2 ! 3)) = 3"
    by (simp_all add: testData dag2_def)
  from top w bw sp spData have "(2::hash) \<le> 4" "(3::hash) \<le> 4" by auto
  then show ?thesis using r sp w bw by simp
qed

text \<open>
  C1 as stated fails at that block: the parents 2, 3 and 4 are tied at the blue work 3, the
  lower hash is 2, and the selected parent, which the test expects too, is 4.
\<close>

theorem findSelectedParent_counterexample:
  "parents (dag2 ! 4) = [2, 3, 4] \<and>
   map_option blueWork (expectedStore dag2 2) = Some 3 \<and>
   map_option blueWork (expectedStore dag2 3) = Some 3 \<and>
   map_option blueWork (expectedStore dag2 4) = Some 3 \<and>
   map_option fst (findSelectedParent (expectedStore dag2) (parents (dag2 ! 4))) = Some 4 \<and>
   expectedSelectedParent (dag2 ! 4) = 4 \<and>
   (2::hash) < 4"
  by (simp add: testData selectParent dag2_def)



text \<open>
  C3. When \<^verbatim>\<open>GHOSTDAG\<close> runs on a newly connected block (a block without data yet) that has
  parents, all with data, in a store that satisfies the invariant, it returns, the data it
  stages for the block has a selected parent with data, the blue score of the block is the
  blue score of that parent plus the number of its merge-set blues (in \<^verbatim>\<open>uint64\<close>), and the
  store still satisfies the invariant. The expected data of the six test DAGs satisfies the
  invariant, and on the chain of the first test DAG the engine produces the expected data.
\<close>

theorem GHOSTDAG_blueScore_invariant:
  assumes "Parents parentsMap blockHash \<noteq> []"
    and "\<forall>p\<in>set (Parents parentsMap blockHash). dagMap p \<noteq> None"
    and "dagMap blockHash = None"
    and "blueScoreInvariant dagMap"
  shows "(\<exists>dagMap' d sp spData.
       GHOSTDAG engine parentsMap dagMap blockHash = Some dagMap' \<and>
       dagMap' blockHash = Some d \<and> selectedParent d = Some sp \<and> dagMap' sp = Some spData \<and>
       blueScore d = blueScore spData + of_nat (length (mergeSetBlues d)) \<and>
       blueScoreInvariant dagMap') \<and>
     blueScoreInvariant (expectedStore dag1) \<and> blueScoreInvariant (expectedStore dag2) \<and>
     blueScoreInvariant (expectedStore dag3) \<and> blueScoreInvariant (expectedStore dag4) \<and>
     blueScoreInvariant (expectedStore dag5) \<and> blueScoreInvariant (expectedStore dag6) \<and>
     runTest chainEngine dag1 Map.empty [genesisHash' \<mapsto> genesisGHOSTDAGData] =
       Some (expectedStore dag1)"
proof -
  from findSelectedParent_total [OF assms(1,2)] obtain sp spData where
    "findSelectedParent dagMap (Parents parentsMap blockHash) = Some (sp, spData)"
    by blast
  from GHOSTDAG_step [OF this assms(3,4), of engine]
  have "\<exists>dagMap' d sp spData.
       GHOSTDAG engine parentsMap dagMap blockHash = Some dagMap' \<and>
       dagMap' blockHash = Some d \<and> selectedParent d = Some sp \<and> dagMap' sp = Some spData \<and>
       blueScore d = blueScore spData + of_nat (length (mergeSetBlues d)) \<and>
       blueScoreInvariant dagMap'"
    by blast
  then show ?thesis
    using blueScoreInvariant_dag1 blueScoreInvariant_dag2 blueScoreInvariant_dag3
      blueScoreInvariant_dag4 blueScoreInvariant_dag5 blueScoreInvariant_dag6 runTest_dag1
    by blast
qed

text \<open>
  The theorem at the first block of the chain, on the store that holds genesis alone: the
  block gets the selected parent genesis and the blue score 1 + 1 = 2.
\<close>

theorem GHOSTDAG_blueScore_invariant_witness:
  "\<exists>dagMap' d.
     GHOSTDAG chainEngine [1 \<mapsto> [genesisHash']] [genesisHash' \<mapsto> genesisGHOSTDAGData] 1 =
       Some dagMap' \<and>
     dagMap' 1 = Some d \<and> selectedParent d = Some genesisHash' \<and>
     dagMap' genesisHash' = Some genesisGHOSTDAGData \<and> blueScore d = 2 \<and>
     length (mergeSetBlues d) = 1"
proof -
  let ?store = "[genesisHash' \<mapsto> genesisGHOSTDAGData]"
  let ?parents = "[1 \<mapsto> [genesisHash']]"
  have inv: "blueScoreInvariant ?store"
    by (simp add: blueScoreInvariant_def genesisGHOSTDAGData_def)
  have ps: "Parents ?parents 1 \<noteq> []" "\<forall>p\<in>set (Parents ?parents 1). ?store p \<noteq> None"
    and fresh: "?store 1 = None"
    by (simp_all add: Parents_def genesisHash'_def)
  from GHOSTDAG_blueScore_invariant [OF ps fresh inv, of chainEngine]
  obtain dagMap' d sp spData where
    run: "GHOSTDAG chainEngine ?parents ?store 1 = Some dagMap'"
    and d: "dagMap' 1 = Some d" "selectedParent d = Some sp" "dagMap' sp = Some spData"
      "blueScore d = blueScore spData + of_nat (length (mergeSetBlues d))"
    by blast
  have "GHOSTDAG chainEngine ?parents ?store 1 =
      Some (?store(1 \<mapsto>
        \<lparr> blueScore = 2, blueWork = 2, selectedParent = Some genesisHash',
          mergeSetBlues = [genesisHash'], mergeSetReds = [],
          bluesAnticoneSizes = Map.empty \<rparr>))"
    by (simp add: GHOSTDAG_def Parents_def chainEngine_def selectParent Stage_def
        genesisHash'_def genesisGHOSTDAGData_def numeral_2_eq_2)
  with run d show ?thesis
    by (auto simp: genesisHash'_def genesisGHOSTDAGData_def)
qed

end
